theory Spec2Isabelle
  imports Main "HOL-Library.Product_Lexorder"
begin

section \<open>Athan Center: the scheduling and authorization core of app/server.js\<close>

subsection \<open>Dates, clock readings and instants\<close>

text \<open>
  The server stores a calendar date as the text \<^verbatim>\<open>YYYY-MM-DD\<close> and a time of day as the
  text \<^verbatim>\<open>HH:MM\<close>, both zero-padded, and compares them as strings in SQL. Zero-padded
  texts of equal length are ordered as the numbers they spell, so a date is modelled by its
  day number (days since 1970-01-01) and a time of day by the pair (hour, minute) under
  the lexicographic order.
\<close>

type_synonym ymd = nat
type_synonym hhmm = "nat \<times> nat"

text \<open>
  One reading of \<^verbatim>\<open>new Date()\<close>: the epoch milliseconds (\<^verbatim>\<open>Date.now()\<close>), the local
  calendar day and local wall clock (what \<^verbatim>\<open>getFullYear/getMonth/getDate\<close> and
  \<^verbatim>\<open>toTimeString\<close> show), and the UTC calendar day (what \<^verbatim>\<open>toISOString\<close> shows).
  Milliseconds below the second are dropped: every comparison of the server is against a
  whole second.
\<close>

record instant =
  epoch_ms :: int
  local_day :: ymd
  clock_h :: nat
  clock_m :: nat
  clock_s :: nat
  utc_day :: ymd

definition formatDateLocal :: "instant \<Rightarrow> ymd" where
  "formatDateLocal d = local_day d"

text \<open>\<^verbatim>\<open>now.toTimeString().split(' ')[0].substring(0, 5)\<close>: the seconds are cut off.\<close>

definition toTimeHHMM :: "instant \<Rightarrow> hhmm" where
  "toTimeHHMM d = (clock_h d, clock_m d)"

text \<open>\<^verbatim>\<open>new Date().toISOString().split('T')[0]\<close>: the date in UTC.\<close>

definition toISODate :: "instant \<Rightarrow> ymd" where
  "toISODate d = utc_day d"

text \<open>\<^verbatim>\<open>getDay()\<close>, 0 = Sunday; day number 0 (1970-01-01) was a Thursday.\<close>

definition getDay :: "instant \<Rightarrow> nat" where
  "getDay d = (local_day d + 4) mod 7"

text \<open>\<^verbatim>\<open>(jsDay + 6) % 7\<close>: 0 = Monday ... 6 = Sunday, the indexing of the schedule matrix.\<close>

definition dayIndex :: "instant \<Rightarrow> nat" where
  "dayIndex d = (getDay d + 6) mod 7"

text \<open>\<^verbatim>\<open>tomorrow.setDate(tomorrow.getDate() + 1)\<close> followed by \<^verbatim>\<open>formatDateLocal\<close>.\<close>

definition tomorrowOf :: "instant \<Rightarrow> ymd" where
  "tomorrowOf d = formatDateLocal d + 1"

text \<open>\<^verbatim>\<open>parseInt(t.split(':')[0]) * 60 + parseInt(t.split(':')[1])\<close>.\<close>

definition minutesOf :: "hhmm \<Rightarrow> int" where
  "minutesOf t = int (fst t) * 60 + int (snd t)"

text \<open>Seconds on the local time line, for \<^verbatim>\<open>prayerDateTime > now\<close>.\<close>

definition localSeconds :: "instant \<Rightarrow> nat" where
  "localSeconds d = ((local_day d * 24 + clock_h d) * 60 + clock_m d) * 60 + clock_s d"

subsection \<open>The persisted tables\<close>

record prayer_row =
  date :: ymd
  prayer_name :: string
  prayer_time :: hhmm

record skip_next_row =
  skip :: int
  last_skipped_prayer :: "string option"
  last_skipped_date :: "ymd option"

record update_info_row =
  last_update :: "int option"
  prayers_count :: nat

text \<open>
  A job of node-schedule: the instant it fires at and the calendar row its callback closes
  over (the callback is \<^verbatim>\<open>playAthan(prayer.prayer_name)\<close>).
\<close>

record athan_job =
  fireAt :: nat
  job_prayer :: prayer_row

text \<open>
  The state of the server. Table \<^verbatim>\<open>prayers\<close> is a list of rows (its
  \<^verbatim>\<open>UNIQUE(date, prayer_name)\<close> is kept by the insertion below); table
  \<^verbatim>\<open>prayer_schedule\<close> is a map from (prayer_name, day_of_week) to the integer in
  column \<^verbatim>\<open>enabled\<close>, which builds in its \<^verbatim>\<open>UNIQUE(prayer_name, day_of_week)\<close>; table
  \<^verbatim>\<open>skip_next\<close> has the single row with id 1, or no row; \<^verbatim>\<open>scheduledJobs\<close> and
  \<^verbatim>\<open>lastSystemTime\<close> are the two module variables. Columns \<^verbatim>\<open>city_name\<close> and
  \<^verbatim>\<open>next_update\<close> of \<^verbatim>\<open>update_info\<close> are display texts and are left out.
\<close>

record server_state =
  prayers :: "prayer_row list"
  settings :: "string \<rightharpoonup> string"
  prayer_schedule :: "(string \<times> nat) \<rightharpoonup> int"
  skip_next :: "skip_next_row option"
  muted_weekdays :: "nat \<rightharpoonup> int"
  update_info :: update_info_row
  scheduledJobs :: "athan_job list"
  lastSystemTime :: int

definition mainPrayers :: "string list" where
  "mainPrayers = [''Fajr'', ''Dhuhr'', ''Asr'', ''Maghrib'', ''Isha'']"

subsection \<open>The queries\<close>

text \<open>\<^verbatim>\<open>.get(...)\<close> of a query: its first row, or undefined.\<close>

definition firstRow :: "'a list \<Rightarrow> 'a option" where
  "firstRow rows = (case rows of [] \<Rightarrow> None | r # _ \<Rightarrow> Some r)"

text \<open>
  \<^verbatim>\<open>SELECT * FROM prayers WHERE date = ? AND prayer_name IN (?, ?, ?, ?, ?) ORDER BY prayer_time\<close>.
  Rows with the same time keep the order of the table (SQLite leaves their order open).
\<close>

definition selectMainOn :: "prayer_row list \<Rightarrow> ymd \<Rightarrow> prayer_row list" where
  "selectMainOn tbl d =
     sort_key prayer_time (filter (\<lambda>r. date r = d \<and> prayer_name r \<in> set mainPrayers) tbl)"

text \<open>
  \<^verbatim>\<open>SELECT * FROM prayers WHERE date = ? AND prayer_time > ? AND prayer_name IN (...) ORDER BY prayer_time LIMIT 1\<close>.
\<close>

definition selectNextOn :: "prayer_row list \<Rightarrow> ymd \<Rightarrow> hhmm \<Rightarrow> prayer_row option" where
  "selectNextOn tbl d t =
     firstRow (sort_key prayer_time
       (filter (\<lambda>r. date r = d \<and> prayer_time r > t \<and> prayer_name r \<in> set mainPrayers) tbl))"

text \<open>
  \<^verbatim>\<open>SELECT * FROM prayers WHERE date = ? AND prayer_name IN (...) ORDER BY prayer_time LIMIT 1\<close>.
\<close>

definition selectFirstOn :: "prayer_row list \<Rightarrow> ymd \<Rightarrow> prayer_row option" where
  "selectFirstOn tbl d = firstRow (selectMainOn tbl d)"

text \<open>
  \<^verbatim>\<open>SELECT * FROM prayers WHERE date IN (?, ?) AND prayer_name IN (...) ORDER BY date, prayer_time\<close>.
\<close>

definition selectTwoDays :: "prayer_row list \<Rightarrow> ymd \<Rightarrow> ymd \<Rightarrow> prayer_row list" where
  "selectTwoDays tbl d1 d2 =
     sort_key (\<lambda>r. (date r, prayer_time r))
       (filter (\<lambda>r. (date r = d1 \<or> date r = d2) \<and> prayer_name r \<in> set mainPrayers) tbl)"

text \<open>
  \<^verbatim>\<open>SELECT COUNT(*) as count FROM prayer_schedule WHERE prayer_name = ? AND enabled = 0\<close>.
  The table's \<^verbatim>\<open>CHECK(day_of_week >= 0 AND day_of_week <= 6)\<close> leaves the days 0..6.
\<close>

definition disabledCount :: "((string \<times> nat) \<rightharpoonup> int) \<Rightarrow> string \<Rightarrow> nat" where
  "disabledCount sched p = length (filter (\<lambda>d. sched (p, d) = Some 0) [0..<7])"

text \<open>
  \<^verbatim>\<open>INSERT OR REPLACE INTO prayers (date, prayer_name, prayer_time) VALUES (?, ?, ?)\<close>:
  a row with the same (date, prayer_name) is deleted first.
\<close>

definition insertOrReplace :: "prayer_row list \<Rightarrow> prayer_row \<Rightarrow> prayer_row list" where
  "insertOrReplace tbl r =
     filter (\<lambda>x. \<not> (date x = date r \<and> prayer_name x = prayer_name r)) tbl @ [r]"

subsection \<open>scheduleAthanCalls\<close>

text \<open>\<^verbatim>\<open>new Date(`${prayer.date}T${prayer.prayer_time}:00`)\<close>, on the local time line.\<close>

definition prayerDateTime :: "prayer_row \<Rightarrow> nat" where
  "prayerDateTime r = ((date r * 24 + fst (prayer_time r)) * 60 + snd (prayer_time r)) * 60"

text \<open>
  Every job of \<^verbatim>\<open>scheduledJobs\<close> is cancelled and the array emptied; then one job is armed
  for each selected row whose date-time is after now, and the others are skipped. The
  array holds the armed timers, so cancelling all of them and emptying it is starting
  from the empty list. (The source reads the clock once more per row; the model uses one
  reading for the whole call.)
\<close>

definition scheduleAthanCalls :: "server_state \<Rightarrow> instant \<Rightarrow> server_state" where
  "scheduleAthanCalls st now =
     (let todayStr = formatDateLocal now;
          tomorrowStr = tomorrowOf now;
          rows = selectTwoDays (prayers st) todayStr tomorrowStr;
          jobs = map (\<lambda>r. \<lparr>fireAt = prayerDateTime r, job_prayer = r\<rparr>)
                   (filter (\<lambda>r. prayerDateTime r > localSeconds now) rows)
      in st\<lparr>scheduledJobs := jobs\<rparr>)"

subsection \<open>fetchPrayerTimes\<close>

text \<open>
  An event of the parsed calendar: whether its type is VEVENT, its summary, and the local
  date and \<^verbatim>\<open>HH:MM\<close> of its start.
\<close>

record ics_event =
  is_vevent :: bool
  summary :: string
  start_date :: ymd
  start_time :: hhmm

text \<open>
  The outcome of \<^verbatim>\<open>await axios.get(icsUrl)\<close> followed by \<^verbatim>\<open>ical.parseICS\<close> is an
  argument: \<open>Inl\<close> the error thrown (source unreachable, timeout, parse error), \<open>Inr\<close> the
  events in the order of the \<^verbatim>\<open>for ... in\<close> loop. \<open>threeMonthsStr\<close> is the date three
  months after now. A missing \<^verbatim>\<open>ics_url\<close> row makes \<^verbatim>\<open>urlRow.value\<close> throw. Every throw
  lands in the \<^verbatim>\<open>catch\<close>, which returns false.
\<close>

definition fetchPrayerTimes ::
  "server_state \<Rightarrow> instant \<Rightarrow> ymd \<Rightarrow> string + ics_event list \<Rightarrow> server_state \<times> bool" where
  "fetchPrayerTimes st now threeMonthsStr response =
     (case settings st ''ics_url'' of
        None \<Rightarrow> (st, False)
      | Some icsUrl \<Rightarrow>
         (case response of
            Inl err \<Rightarrow> (st, False)
          | Inr events \<Rightarrow>
             (let todayStr = formatDateLocal now;
                  kept = filter (\<lambda>r. \<not> date r \<ge> todayStr) (prayers st);
                  accepted = filter (\<lambda>ev. is_vevent ev \<and> start_date ev \<ge> todayStr
                                          \<and> start_date ev \<le> threeMonthsStr) events;
                  inserted = foldl insertOrReplace kept
                    (map (\<lambda>ev. \<lparr>date = start_date ev, prayer_name = summary ev,
                                 prayer_time = start_time ev\<rparr>) accepted);
                  insertedCount = length accepted;
                  st1 = st\<lparr>prayers := inserted,
                           update_info := \<lparr>last_update = Some (epoch_ms now),
                                            prayers_count = insertedCount\<rparr>\<rparr>
              in (scheduleAthanCalls st1 now, True))))"

subsection \<open>playAthan\<close>

text \<open>\<^verbatim>\<open>row ? row.value : dflt\<close> on \<^verbatim>\<open>SELECT value FROM settings WHERE key = ?\<close>.\<close>

definition settingOr :: "server_state \<Rightarrow> string \<Rightarrow> string \<Rightarrow> string" where
  "settingOr st k dflt = (case settings st k of Some v \<Rightarrow> v | None \<Rightarrow> dflt)"

text \<open>
  What a call of playAthan ends in. The two skips are the two early returns of the checks;
  the other three come after the line "All checks passed": nothing on the server when the
  output is the browser only, the player started on a file with the text of the chosen
  volume setting (and whether the 30 second trim of the test is on), or the file missing.
\<close>

datatype athan_outcome =
    ScheduleDisabled
  | SkipNextConsumed
  | BrowserOnly
  | ServerPlay string string bool
  | AudioFileMissing string

text \<open>
  \<open>existsSync\<close> is \<^verbatim>\<open>fs.existsSync\<close> on the file of the athan directory. Both readings of
  the clock inside the function are the one instant \<open>now\<close>.
\<close>

definition playAthan ::
  "(string \<Rightarrow> bool) \<Rightarrow> server_state \<Rightarrow> instant \<Rightarrow> string \<Rightarrow> server_state \<times> athan_outcome" where
  "playAthan existsSync st now prayerName =
     (let isSpecialEvent = prayerName \<in> set [''Startup'', ''PageLoad'', ''Test''];
          scheduleEntry = prayer_schedule st (prayerName, dayIndex now);
          currentDate = toISODate now
      in
      if \<not> isSpecialEvent \<and> scheduleEntry = Some 0 then (st, ScheduleDisabled)
      else if \<not> isSpecialEvent \<and> (case skip_next st of Some r \<Rightarrow> skip r = 1 | None \<Rightarrow> False)
      then (st\<lparr>skip_next :=
                 map_option (\<lambda>r. r\<lparr>skip := 0, last_skipped_prayer := Some prayerName,
                                     last_skipped_date := Some currentDate\<rparr>) (skip_next st)\<rparr>,
            SkipNextConsumed)
      else
        (let audioOutput = settingOr st ''audio_output'' ''both'' in
         if audioOutput = ''browser'' then (st, BrowserOnly)
         else
           (let audioFile = settingOr st ''audio_file'' ''Masjid Al-Haram.mp3'';
                volumePercent =
                  (if prayerName = ''Fajr'' then
                     (if settings st ''sync_fajr_volume'' = Some ''1''
                      then settingOr st ''fajr_volume'' ''50''
                      else settingOr st ''volume'' ''50'')
                   else settingOr st ''volume'' ''50'')
            in if existsSync audioFile
               then (st, ServerPlay audioFile volumePercent (prayerName = ''Test''))
               else (st, AudioFileMissing audioFile))))"

text \<open>The call passed the schedule matrix and the one-shot mute.\<close>

definition athanAllowed :: "athan_outcome \<Rightarrow> bool" where
  "athanAllowed out = (out \<noteq> ScheduleDisabled \<and> out \<noteq> SkipNextConsumed)"

subsection \<open>GET /api/check-athan-time\<close>

datatype check_response = NoPlay | ShouldPlay string string

text \<open>The window test of the loop body, \<^verbatim>\<open>diff >= 0 && diff <= 1\<close> in whole minutes.\<close>

definition inTriggerWindow :: "instant \<Rightarrow> prayer_row \<Rightarrow> bool" where
  "inTriggerWindow now prayer =
     (let currentMinutes = minutesOf (toTimeHHMM now);
          prayerMinutes = minutesOf (prayer_time prayer);
          diff = currentMinutes - prayerMinutes
      in diff \<ge> 0 \<and> diff \<le> 1)"

text \<open>The \<^verbatim>\<open>for (const prayer of prayers)\<close> loop; every branch inside the window returns.\<close>

fun checkLoop :: "server_state \<Rightarrow> instant \<Rightarrow> prayer_row list \<Rightarrow> check_response" where
  "checkLoop st now [] = NoPlay"
| "checkLoop st now (prayer # rest) =
     (if inTriggerWindow now prayer then
        (if (case skip_next st of Some r \<Rightarrow> skip r = 1 | None \<Rightarrow> False) then NoPlay
         else if (case skip_next st of
                    Some r \<Rightarrow> last_skipped_prayer r = Some (prayer_name prayer)
                              \<and> last_skipped_date r = Some (formatDateLocal now)
                  | None \<Rightarrow> False) then NoPlay
         else if prayer_schedule st (prayer_name prayer, dayIndex now) = Some 0 then NoPlay
         else ShouldPlay (prayer_name prayer) (settingOr st ''audio_file'' ''Masjid Al-Haram.mp3''))
      else checkLoop st now rest)"

text \<open>The handler writes nothing: it is a function of the state and the clock.\<close>

definition checkAthanTime :: "server_state \<Rightarrow> instant \<Rightarrow> check_response" where
  "checkAthanTime st now =
     (if settingOr st ''audio_output'' ''both'' = ''server'' then NoPlay
      else checkLoop st now (selectMainOn (prayers st) (formatDateLocal now)))"

subsection \<open>GET /api/prayers/next/upcoming\<close>

definition nextUpcoming :: "server_state \<Rightarrow> instant \<Rightarrow> prayer_row option" where
  "nextUpcoming st now =
     (case selectNextOn (prayers st) (formatDateLocal now) (toTimeHHMM now) of
        Some nextPrayer \<Rightarrow> Some nextPrayer
      | None \<Rightarrow> selectFirstOn (prayers st) (tomorrowOf now))"

subsection \<open>GET /api/prayer-settings and POST /api/prayer-schedule\<close>

text \<open>\<^verbatim>\<open>enabled: disabledCount === 0 ? 1 : 0\<close>, of both prayer-settings routes.\<close>

definition prayerSettingEnabled :: "server_state \<Rightarrow> string \<Rightarrow> int" where
  "prayerSettingEnabled st prayerName =
     (if disabledCount (prayer_schedule st) prayerName = 0 then 1 else 0)"

definition getPrayerSettings :: "server_state \<Rightarrow> (string \<times> int) list" where
  "getPrayerSettings st = map (\<lambda>prayerName. (prayerName, prayerSettingEnabled st prayerName)) mainPrayers"

text \<open>
  \<^verbatim>\<open>UPDATE prayer_schedule SET enabled = ? WHERE prayer_name = ? AND day_of_week = ?\<close>: an
  update changes the row when there is one and nothing otherwise.
\<close>

definition updateCell ::
  "((string \<times> nat) \<rightharpoonup> int) \<Rightarrow> string \<Rightarrow> nat \<Rightarrow> int \<Rightarrow> ((string \<times> nat) \<rightharpoonup> int)" where
  "updateCell sched p d v = (case sched (p, d) of None \<Rightarrow> sched | Some _ \<Rightarrow> sched((p, d) \<mapsto> v))"

text \<open>
  The body carries the prayer name (the empty text is falsy), the day (absent, or an
  integer) and the flag. The three rejections answer 400 with their message.
\<close>

definition postPrayerSchedule ::
  "server_state \<Rightarrow> string \<Rightarrow> int option \<Rightarrow> bool \<Rightarrow> server_state \<times> (string + unit)" where
  "postPrayerSchedule st prayerName dayOfWeek enabled =
     (case dayOfWeek of
        None \<Rightarrow> (st, Inl ''prayer_name and day_of_week are required'')
      | Some dow \<Rightarrow>
         if prayerName = [] then (st, Inl ''prayer_name and day_of_week are required'')
         else if dow < 0 \<or> dow > 6
           then (st, Inl ''day_of_week must be between 0 (Monday) and 6 (Sunday)'')
         else if prayerName \<notin> set mainPrayers
           then (st, Inl ''Invalid prayer_name. Must be one of: Fajr, Dhuhr, Asr, Maghrib, Isha'')
         else (st\<lparr>prayer_schedule :=
                    updateCell (prayer_schedule st) prayerName (nat dow) (if enabled then 1 else 0)\<rparr>,
               Inr ()))"

subsection \<open>POST /api/skip-next and GET /api/mute-next-athan\<close>

text \<open>A reply: the HTTP status, the \<^verbatim>\<open>success\<close> field and the message.\<close>

datatype mute_reply = Reply nat bool string

text \<open>\<^verbatim>\<open>UPDATE skip_next SET skip = 1 WHERE id = 1\<close>.\<close>

definition setSkip :: "server_state \<Rightarrow> server_state" where
  "setSkip st = st\<lparr>skip_next := map_option (\<lambda>r. r\<lparr>skip := 1\<rparr>) (skip_next st)\<rparr>"

definition postSkipNext :: "server_state \<Rightarrow> instant \<Rightarrow> server_state \<times> mute_reply" where
  "postSkipNext st now =
     (let currentDate = formatDateLocal now;
          currentTime = toTimeHHMM now
      in case selectNextOn (prayers st) currentDate currentTime of
           None \<Rightarrow>
             (case selectFirstOn (prayers st) (tomorrowOf now) of
                Some firstPrayerTomorrow \<Rightarrow>
                  if disabledCount (prayer_schedule st) (prayer_name firstPrayerTomorrow) = 7
                  then (st, Reply 400 False
                          (prayer_name firstPrayerTomorrow @ '' is already muted in general settings''))
                  else (setSkip st, Reply 200 True ''Next athan will be skipped'')
              | None \<Rightarrow> (setSkip st, Reply 200 True ''Next athan will be skipped''))
         | Some nextPrayer \<Rightarrow>
             if disabledCount (prayer_schedule st) (prayer_name nextPrayer) = 7
             then (st, Reply 400 False
                     (prayer_name nextPrayer @ '' is already muted in general settings''))
             else (setSkip st, Reply 200 True ''Next athan will be skipped''))"

definition getMuteNextAthan :: "server_state \<Rightarrow> instant \<Rightarrow> server_state \<times> mute_reply" where
  "getMuteNextAthan st now =
     (let currentDate = formatDateLocal now;
          currentTime = toTimeHHMM now
      in case selectNextOn (prayers st) currentDate currentTime of
           None \<Rightarrow>
             (case selectFirstOn (prayers st) (tomorrowOf now) of
                Some firstPrayerTomorrow \<Rightarrow>
                  if disabledCount (prayer_schedule st) (prayer_name firstPrayerTomorrow) = 7
                  then (st, Reply 200 False
                          (prayer_name firstPrayerTomorrow @ '' is already muted in general settings''))
                  else (setSkip st, Reply 200 True ''Next athan has been muted successfully'')
              | None \<Rightarrow> (setSkip st, Reply 200 True ''Next athan has been muted successfully''))
         | Some nextPrayer \<Rightarrow>
             if disabledCount (prayer_schedule st) (prayer_name nextPrayer) = 7
             then (st, Reply 200 False
                     (prayer_name nextPrayer @ '' is already muted in general settings''))
             else (setSkip st, Reply 200 True ''Next athan has been muted successfully''))"

subsection \<open>The drift check of every ten seconds\<close>

text \<open>
  The callback of the 10000 ms interval. scheduleFridayQuran, called next to
  scheduleAthanCalls, replaces only the Friday job, which is no part of this state.
\<close>

definition timeDrift :: "server_state \<Rightarrow> instant \<Rightarrow> int" where
  "timeDrift st now =
     (let expectedElapsed = 10000;
          actualElapsed = epoch_ms now - lastSystemTime st
      in \<bar>actualElapsed - expectedElapsed\<bar>)"

definition driftCheck :: "server_state \<Rightarrow> instant \<Rightarrow> server_state" where
  "driftCheck st now =
     (let st1 = (if timeDrift st now > 5000 then scheduleAthanCalls st now else st)
      in st1\<lparr>lastSystemTime := epoch_ms now\<rparr>)"

subsection \<open>The database after startup\<close>

text \<open>
  The rows the server inserts when it starts: the default settings, the 35 cells of the
  schedule matrix (all enabled), the skip_next row and the seven weekday mutes (all off).
\<close>

definition initialSettings :: "string \<rightharpoonup> string" where
  "initialSettings = map_of
     [(''ics_url'', ''https://prayerwebcal.dsultan.com/ics/La_Mecque/cq=0:csr=0:ct=0:ee=0:qs=0:srs=0:ss=0:sus=0:ts=0:tz=Asia%2FRiyadh:x=21.421:y=39.827''),
      (''audio_file'', ''Masjid Al-Haram.mp3''),
      (''play_on_startup'', ''1''),
      (''play_on_page_load'', ''0''),
      (''audio_output'', ''both''),
      (''volume'', ''50''),
      (''audio_card'', ''auto''),
      (''friday_quran_enabled'', ''0''),
      (''friday_quran_time'', ''07:00''),
      (''friday_quran_file'', ''Sourat Al Kahf - Hani Arrifai.mp3''),
      (''dark_mode'', ''0''),
      (''fajr_volume'', ''50''),
      (''sync_fajr_volume'', ''0'')]"

definition initialSchedule :: "(string \<times> nat) \<rightharpoonup> int" where
  "initialSchedule = (\<lambda>(p, d). if p \<in> set mainPrayers \<and> d < 7 then Some 1 else None)"

definition initialSkipNext :: skip_next_row where
  "initialSkipNext = \<lparr>skip = 0, last_skipped_prayer = None, last_skipped_date = None\<rparr>"

definition initialMutedWeekdays :: "nat \<rightharpoonup> int" where
  "initialMutedWeekdays = (\<lambda>d. if d < 7 then Some 0 else None)"

definition startupState :: "prayer_row list \<Rightarrow> server_state" where
  "startupState tbl =
     \<lparr>prayers = tbl, settings = initialSettings, prayer_schedule = initialSchedule,
      skip_next = Some initialSkipNext, muted_weekdays = initialMutedWeekdays,
      update_info = \<lparr>last_update = None, prayers_count = 0\<rparr>,
      scheduledJobs = [], lastSystemTime = 0\<rparr>"

subsection \<open>Notions the properties are stated with\<close>

text \<open>The key of the prayers table, \<^verbatim>\<open>UNIQUE(date, prayer_name)\<close>.\<close>

definition rowKey :: "prayer_row \<Rightarrow> ymd \<times> string" where
  "rowKey r = (date r, prayer_name r)"

text \<open>
  The persisted shape of the schedule matrix: each of the 35 cells is there and holds 0
  or 1.
\<close>

definition matrixComplete :: "((string \<times> nat) \<rightharpoonup> int) \<Rightarrow> bool" where
  "matrixComplete sched =
     list_all (\<lambda>p. list_all (\<lambda>d. sched (p, d) = Some 0 \<or> sched (p, d) = Some 1) [0..<7]) mainPrayers"

text \<open>A clock reading shows minutes and seconds below 60.\<close>

definition validClock :: "instant \<Rightarrow> bool" where
  "validClock d = (clock_m d < 60 \<and> clock_s d < 60)"

text \<open>
  A sequence of authorization checks for one prayer: the armed timer firing (a call of
  playAthan) or a poll of the browser (a request to check-athan-time), each at its
  instant. A check answers Allow or Deny; the deny of playAthan that clears the one-shot
  mute is told apart. A poll answers Allow for the prayer when it says shouldPlay with
  that prayer's name; it leaves the state as it is.
\<close>

datatype auth_check = Fire instant | Poll instant

datatype verdict = Allow | Deny | DenyAndConsume

definition fireVerdict :: "athan_outcome \<Rightarrow> verdict" where
  "fireVerdict out =
     (if out = SkipNextConsumed then DenyAndConsume
      else if out = ScheduleDisabled then Deny else Allow)"

definition pollVerdict :: "string \<Rightarrow> check_response \<Rightarrow> verdict" where
  "pollVerdict p resp =
     (case resp of NoPlay \<Rightarrow> Deny | ShouldPlay n a \<Rightarrow> if n = p then Allow else Deny)"

fun authStep ::
  "(string \<Rightarrow> bool) \<Rightarrow> string \<Rightarrow> server_state \<Rightarrow> auth_check \<Rightarrow> server_state \<times> verdict" where
  "authStep ex p st (Fire now) =
     (fst (playAthan ex st now p), fireVerdict (snd (playAthan ex st now p)))"
| "authStep ex p st (Poll now) = (st, pollVerdict p (checkAthanTime st now))"

fun runChecks ::
  "(string \<Rightarrow> bool) \<Rightarrow> string \<Rightarrow> server_state \<Rightarrow> auth_check list \<Rightarrow> server_state \<times> verdict list" where
  "runChecks ex p st [] = (st, [])"
| "runChecks ex p st (c # cs) =
     (let r1 = authStep ex p st c;
          r2 = runChecks ex p (fst r1) cs
      in (fst r2, snd r1 # snd r2))"

subsection \<open>A calendar and clock readings to evaluate on\<close>

text \<open>
  Day 20000 is Friday 2024-10-04. The calendar has Fajr at 06:30 and Dhuhr at 12:45 on
  that day, a sunrise marker, and the next day's Fajr and Dhuhr.
\<close>

definition scenarioCalendar :: "prayer_row list" where
  "scenarioCalendar =
     [\<lparr>date = 20000, prayer_name = ''Fajr'', prayer_time = (6, 30)\<rparr>,
      \<lparr>date = 20000, prayer_name = ''Sunrise'', prayer_time = (7, 50)\<rparr>,
      \<lparr>date = 20000, prayer_name = ''Dhuhr'', prayer_time = (12, 45)\<rparr>,
      \<lparr>date = 20001, prayer_name = ''Dhuhr'', prayer_time = (12, 44)\<rparr>,
      \<lparr>date = 20001, prayer_name = ''Fajr'', prayer_time = (6, 31)\<rparr>]"

text \<open>The reading of a clock in the UTC time zone: local day and UTC day agree.\<close>

definition clockAt :: "ymd \<Rightarrow> nat \<Rightarrow> nat \<Rightarrow> nat \<Rightarrow> instant" where
  "clockAt d h m s =
     \<lparr>epoch_ms = (((int d * 24 + int h) * 60 + int m) * 60 + int s) * 1000,
      local_day = d, clock_h = h, clock_m = m, clock_s = s, utc_day = d\<rparr>"

text \<open>
  The schedule armed at 05:00 of day 20000, with the drift monitor's last sample taken
  then; Fajr disabled on every weekday; Fajr disabled on Friday only.
\<close>

definition armedState :: server_state where
  "armedState = (scheduleAthanCalls (startupState scenarioCalendar) (clockAt 20000 5 0 0))
                   \<lparr>lastSystemTime := epoch_ms (clockAt 20000 5 0 0)\<rparr>"

definition fajrOffAllWeek :: server_state where
  "fajrOffAllWeek = (startupState scenarioCalendar)
     \<lparr>prayer_schedule := (\<lambda>(p, d). if p = ''Fajr'' \<and> d < 7 then Some 0 else initialSchedule (p, d))\<rparr>"

definition fajrOffFriday :: server_state where
  "fajrOffFriday = (startupState scenarioCalendar)
     \<lparr>prayer_schedule := initialSchedule((''Fajr'', 4) \<mapsto> 0)\<rparr>"

text \<open>
  The state right after the one-shot mute was consumed for Fajr of day 20000, and the
  startup state with the one-shot mute set.
\<close>

definition consumedToday :: server_state where
  "consumedToday = (startupState scenarioCalendar)
     \<lparr>skip_next := Some \<lparr>skip = 0, last_skipped_prayer = Some ''Fajr'',
                          last_skipped_date = Some 20000\<rparr>\<rparr>"

definition mutedState :: server_state where
  "mutedState = setSkip (startupState scenarioCalendar)"

text \<open>
  An evening calendar, and the reading of a clock four hours behind UTC: from 20:00 on,
  the UTC date is already the next day.
\<close>

definition eveningCalendar :: "prayer_row list" where
  "eveningCalendar =
     [\<lparr>date = 20000, prayer_name = ''Maghrib'', prayer_time = (18, 40)\<rparr>,
      \<lparr>date = 20000, prayer_name = ''Isha'', prayer_time = (20, 30)\<rparr>]"

definition clockWestAt :: "ymd \<Rightarrow> nat \<Rightarrow> nat \<Rightarrow> nat \<Rightarrow> instant" where
  "clockWestAt d h m s =
     \<lparr>epoch_ms = (((int d * 24 + int h + 4) * 60 + int m) * 60 + int s) * 1000,
      local_day = d, clock_h = h, clock_m = m, clock_s = s,
      utc_day = (if h + 4 \<ge> 24 then d + 1 else d)\<rparr>"

text \<open>The startup state with the server as the only output target.\<close>

definition serverOnlyState :: server_state where
  "serverOnlyState = (startupState scenarioCalendar)
     \<lparr>settings := initialSettings(''audio_output'' \<mapsto> ''server'')\<rparr>"

section \<open>Properties\<close>

subsection \<open>Auxiliary facts about the queries\<close>

lemma length_filter_all: "length (filter P xs) = length xs \<longleftrightarrow> (\<forall>x\<in>set xs. P x)"
proof (induction xs)
  case Nil
  then show ?case by simp
next
  case (Cons x xs)
  have "length (filter P xs) \<noteq> Suc (length xs)"
    by (metis length_filter_le Suc_n_not_le_n)
  with Cons show ?case by auto
qed

lemma disabledCount_zero:
  "disabledCount sched p = 0 \<longleftrightarrow> (\<forall>d<7. sched (p, d) \<noteq> Some 0)"
  by (auto simp: disabledCount_def filter_empty_conv)

lemma disabledCount_seven:
  "disabledCount sched p = 7 \<longleftrightarrow> (\<forall>d<7. sched (p, d) = Some 0)"
proof -
  have "disabledCount sched p = 7 \<longleftrightarrow>
        length (filter (\<lambda>d. sched (p, d) = Some 0) [0..<7]) = length [0..<7]"
    by (simp add: disabledCount_def)
  also have "\<dots> \<longleftrightarrow> (\<forall>d\<in>set [0..<7]. sched (p, d) = Some 0)"
    by (rule length_filter_all)
  finally show ?thesis by auto
qed

lemma checkLoop_muted_weekdays:
  "checkLoop (st\<lparr>muted_weekdays := m\<rparr>) now rows = checkLoop st now rows"
  by (induction rows) (simp_all add: settingOr_def)

lemma firstRow_sort_key:
  fixes f :: "'a \<Rightarrow> 'b::linorder"
  assumes "firstRow (sort_key f xs) = Some r"
  shows "r \<in> set xs \<and> (\<forall>x\<in>set xs. f r \<le> f x)"
proof -
  obtain ys where ys: "sort_key f xs = r # ys"
    using assms by (auto simp: firstRow_def split: list.splits)
  have "set (sort_key f xs) = set xs" by simp
  moreover have "sorted (map f (sort_key f xs))" by (rule sorted_sort_key)
  ultimately show ?thesis using ys by auto
qed

lemma firstRow_None: "firstRow xs = None \<longleftrightarrow> xs = []"
  by (simp add: firstRow_def split: list.splits)

lemma firstRow_sort_key_None:
  fixes f :: "'a \<Rightarrow> 'b::linorder"
  shows "firstRow (sort_key f xs) = None \<longleftrightarrow> xs = []"
proof -
  have "sort_key f xs = [] \<longleftrightarrow> xs = []"
    by (metis length_sort length_0_conv)
  then show ?thesis by (simp add: firstRow_None)
qed

lemma matrixComplete_cell:
  "matrixComplete sched \<Longrightarrow> p \<in> set mainPrayers \<Longrightarrow> d < 7 \<Longrightarrow>
   sched (p, d) = Some 0 \<or> sched (p, d) = Some 1"
  by (simp add: matrixComplete_def list_all_iff)

lemma matrixComplete_initial: "matrixComplete initialSchedule"
  by (simp add: matrixComplete_def initialSchedule_def list_all_iff)

lemma scenario_today_630:
  "selectMainOn scenarioCalendar 20000 =
     [\<lparr>date = 20000, prayer_name = ''Fajr'', prayer_time = (6, 30)\<rparr>,
      \<lparr>date = 20000, prayer_name = ''Dhuhr'', prayer_time = (12, 45)\<rparr>]"
  by (simp add: selectMainOn_def scenarioCalendar_def mainPrayers_def)

lemma check_scenario_630:
  "checkAthanTime (startupState scenarioCalendar) (clockAt 20000 6 30 10)
     = ShouldPlay ''Fajr'' ''Masjid Al-Haram.mp3''"
  by (simp add: checkAthanTime_def scenario_today_630 startupState_def settingOr_def
      initialSettings_def clockAt_def formatDateLocal_def inTriggerWindow_def minutesOf_def
      toTimeHHMM_def initialSkipNext_def initialSchedule_def dayIndex_def getDay_def mainPrayers_def)

lemma scenario_two_days:
  "selectTwoDays scenarioCalendar 20000 20001 =
     [\<lparr>date = 20000, prayer_name = ''Fajr'', prayer_time = (6, 30)\<rparr>,
      \<lparr>date = 20000, prayer_name = ''Dhuhr'', prayer_time = (12, 45)\<rparr>,
      \<lparr>date = 20001, prayer_name = ''Fajr'', prayer_time = (6, 31)\<rparr>,
      \<lparr>date = 20001, prayer_name = ''Dhuhr'', prayer_time = (12, 44)\<rparr>]"
  by (simp add: selectTwoDays_def scenarioCalendar_def mainPrayers_def)

lemma scenario_jobs:
  "map (\<lambda>j. rowKey (job_prayer j))
     (scheduledJobs (scheduleAthanCalls (st\<lparr>prayers := scenarioCalendar\<rparr>) (clockAt 20000 h m s))) =
   map rowKey (filter (\<lambda>r. prayerDateTime r > localSeconds (clockAt 20000 h m s))
     (selectTwoDays scenarioCalendar 20000 20001))"
  by (simp add: scheduleAthanCalls_def Let_def formatDateLocal_def tomorrowOf_def clockAt_def comp_def)

lemma scenario_next_at_six:
  "prayers st = scenarioCalendar \<Longrightarrow>
   nextUpcoming st (clockAt 20000 6 0 0)
     = Some \<lparr>date = 20000, prayer_name = ''Fajr'', prayer_time = (6, 30)\<rparr>"
  by (simp add: nextUpcoming_def selectNextOn_def firstRow_def scenarioCalendar_def
      mainPrayers_def clockAt_def formatDateLocal_def toTimeHHMM_def)

lemma fridayDhuhrOff_schedule:
  "prayer_schedule (fst (postPrayerSchedule (startupState scenarioCalendar) ''Dhuhr'' (Some 4) False))
   = initialSchedule((''Dhuhr'', 4) \<mapsto> 0)"
  by (simp add: postPrayerSchedule_def updateCell_def startupState_def initialSchedule_def
      mainPrayers_def)

subsection \<open>C5: a failed refresh leaves the calendar as it was\<close>

text \<open>
  C5. When the fetch of the external source fails, fetchPrayerTimes returns false and the
  whole persisted state, the prayers table in particular, is the one it started from: no
  row is deleted or changed.
\<close>

theorem fetchPrayerTimes_failure_keeps_calendar:
  "fetchPrayerTimes st now threeMonthsStr (Inl err) = (st, False)
   \<and> prayers (fst (fetchPrayerTimes st now threeMonthsStr (Inl err))) = prayers st"
  by (simp add: fetchPrayerTimes_def split: option.split)

text \<open>
  For contrast, the success path does replace the calendar from today on: an answer that
  parses to no event at all empties it from today onward and reports success.
\<close>

lemma empty_feed_clears_today_onward:
  "fetchPrayerTimes (startupState scenarioCalendar) (clockAt 20001 0 0 0) 20090 (Inr [])
     = ((startupState scenarioCalendar)
          \<lparr>prayers := [\<lparr>date = 20000, prayer_name = ''Fajr'', prayer_time = (6, 30)\<rparr>,
                        \<lparr>date = 20000, prayer_name = ''Sunrise'', prayer_time = (7, 50)\<rparr>,
                        \<lparr>date = 20000, prayer_name = ''Dhuhr'', prayer_time = (12, 45)\<rparr>],
            update_info := \<lparr>last_update = Some 1728086400000, prayers_count = 0\<rparr>\<rparr>, True)"
  by (simp add: fetchPrayerTimes_def startupState_def initialSettings_def scenarioCalendar_def
      clockAt_def formatDateLocal_def tomorrowOf_def scheduleAthanCalls_def selectTwoDays_def
      mainPrayers_def Let_def)

subsection \<open>C7: the simple enabled view\<close>

text \<open>
  C7. For a canonical prayer in a complete schedule matrix, the simple view (both
  prayer-settings routes) reports enabled = 1 exactly when all seven weekday cells of the
  prayer hold 1; disabling the cell of any one weekday d makes the view report 0, and
  enabling that cell while the other six are enabled makes it report 1.
\<close>

theorem simple_view_needs_all_seven_days:
  assumes complete: "matrixComplete (prayer_schedule st)"
    and canonical: "p \<in> set mainPrayers"
    and day: "d < 7"
  shows "(prayerSettingEnabled st p = 1 \<longleftrightarrow> (\<forall>e<7. prayer_schedule st (p, e) = Some 1))
       \<and> map_of (getPrayerSettings st) p = Some (prayerSettingEnabled st p)
       \<and> prayerSettingEnabled (fst (postPrayerSchedule st p (Some (int d)) False)) p = 0
       \<and> ((\<forall>e<7. e \<noteq> d \<longrightarrow> prayer_schedule st (p, e) = Some 1) \<longrightarrow>
              prayerSettingEnabled (fst (postPrayerSchedule st p (Some (int d)) True)) p = 1)"
proof (intro conjI impI)
  have cell: "\<And>e. e < 7 \<Longrightarrow> prayer_schedule st (p, e) = Some 0 \<or> prayer_schedule st (p, e) = Some 1"
    using complete canonical by (rule matrixComplete_cell)
  show "prayerSettingEnabled st p = 1 \<longleftrightarrow> (\<forall>e<7. prayer_schedule st (p, e) = Some 1)"
    unfolding prayerSettingEnabled_def using cell
    by (auto simp: disabledCount_zero)
  show "map_of (getPrayerSettings st) p = Some (prayerSettingEnabled st p)"
    using canonical by (auto simp: getPrayerSettings_def mainPrayers_def)
  have nonempty: "p \<noteq> []" using canonical by (auto simp: mainPrayers_def)
  have present: "prayer_schedule st (p, d) \<noteq> None" using cell[OF day] by auto
  have post: "prayer_schedule (fst (postPrayerSchedule st p (Some (int d)) b)) =
              (prayer_schedule st)((p, d) \<mapsto> (if b then 1 else 0))" for b
    using day canonical nonempty present
    by (auto simp: postPrayerSchedule_def updateCell_def split: option.splits)
  show "prayerSettingEnabled (fst (postPrayerSchedule st p (Some (int d)) False)) p = 0"
    using day by (auto simp: prayerSettingEnabled_def disabledCount_zero post)
  assume others: "\<forall>e<7. e \<noteq> d \<longrightarrow> prayer_schedule st (p, e) = Some 1"
  show "prayerSettingEnabled (fst (postPrayerSchedule st p (Some (int d)) True)) p = 1"
    using others by (auto simp: prayerSettingEnabled_def disabledCount_zero post)
qed

theorem simple_view_needs_all_seven_days_witness:
  "matrixComplete (prayer_schedule
      (fst (postPrayerSchedule (startupState scenarioCalendar) ''Dhuhr'' (Some 4) False)))
   \<and> ''Dhuhr'' \<in> set mainPrayers \<and> (4::nat) < 7
   \<and> prayerSettingEnabled (startupState scenarioCalendar) ''Dhuhr'' = 1
   \<and> prayerSettingEnabled
        (fst (postPrayerSchedule (startupState scenarioCalendar) ''Dhuhr'' (Some 4) False)) ''Dhuhr'' = 0
   \<and> prayerSettingEnabled
        (fst (postPrayerSchedule
           (fst (postPrayerSchedule (startupState scenarioCalendar) ''Dhuhr'' (Some 4) False))
           ''Dhuhr'' (Some 4) True)) ''Dhuhr'' = 1"
proof -
  let ?s0 = "startupState scenarioCalendar"
  let ?s1 = "fst (postPrayerSchedule ?s0 ''Dhuhr'' (Some 4) False)"
  have c0: "matrixComplete (prayer_schedule ?s0)"
    by (simp add: startupState_def matrixComplete_initial)
  have c1: "matrixComplete (prayer_schedule ?s1)"
    unfolding fridayDhuhrOff_schedule
    by (simp add: matrixComplete_def initialSchedule_def list_all_iff)
  have m: "''Dhuhr'' \<in> set mainPrayers" by (simp add: mainPrayers_def)
  have d: "(4::nat) < 7" by simp
  have all0: "\<forall>e<7. prayer_schedule ?s0 (''Dhuhr'', e) = Some 1"
    by (simp add: startupState_def initialSchedule_def mainPrayers_def)
  have others1: "\<forall>e<7. e \<noteq> 4 \<longrightarrow> prayer_schedule ?s1 (''Dhuhr'', e) = Some 1"
    unfolding fridayDhuhrOff_schedule by (simp add: initialSchedule_def mainPrayers_def)
  have v0: "prayerSettingEnabled ?s0 ''Dhuhr'' = 1"
    using simple_view_needs_all_seven_days[OF c0 m d] all0 by blast
  have v1: "prayerSettingEnabled ?s1 ''Dhuhr'' = 0"
    using simple_view_needs_all_seven_days[OF c0 m d] by simp
  have v2: "prayerSettingEnabled (fst (postPrayerSchedule ?s1 ''Dhuhr'' (Some 4) True)) ''Dhuhr'' = 1"
    using simple_view_needs_all_seven_days[OF c1 m d] others1 by simp
  show ?thesis using c1 m v0 v1 v2 by simp
qed

subsection \<open>C9: the weekday mutes take no part in authorization\<close>

text \<open>
  C9. Two states that differ only in the muted_weekdays table get the same outcome from
  playAthan, for every prayer and instant (and the same writes to the rest of the state),
  and the same answer from check-athan-time.
\<close>

theorem weekday_mutes_never_authorize:
  "playAthan ex (st\<lparr>muted_weekdays := m\<rparr>) now p =
     ((fst (playAthan ex st now p))\<lparr>muted_weekdays := m\<rparr>, snd (playAthan ex st now p))
   \<and> checkAthanTime (st\<lparr>muted_weekdays := m\<rparr>) now = checkAthanTime st now"
  by (simp add: playAthan_def checkAthanTime_def checkLoop_muted_weekdays settingOr_def Let_def)

theorem weekday_mutes_never_authorize_witness:
  "checkAthanTime ((startupState scenarioCalendar)\<lparr>muted_weekdays := (\<lambda>d. Some 1)\<rparr>)
      (clockAt 20000 6 30 10) = ShouldPlay ''Fajr'' ''Masjid Al-Haram.mp3''
   \<and> snd (playAthan (\<lambda>f. True) ((startupState scenarioCalendar)\<lparr>muted_weekdays := (\<lambda>d. Some 1)\<rparr>)
      (clockAt 20000 6 30 10) ''Fajr'') = snd (playAthan (\<lambda>f. True) (startupState scenarioCalendar)
      (clockAt 20000 6 30 10) ''Fajr'')"
  using weekday_mutes_never_authorize[where ex = "\<lambda>f. True" and st = "startupState scenarioCalendar"
      and m = "\<lambda>d. Some 1" and now = "clockAt 20000 6 30 10" and p = "''Fajr''"]
  by (simp add: check_scenario_630)

subsection \<open>C8: the drift check\<close>

text \<open>
  C8. At each sample the drift is the magnitude of (elapsed since the last sample minus the
  10000 ms period). When it exceeds half the period the step is scheduleAthanCalls on the
  current calendar; when it does not, the armed jobs are left as they are. In both cases
  the sample becomes the last system time.
\<close>

theorem drift_beyond_half_period_rearms:
  "timeDrift st now = \<bar>(epoch_ms now - lastSystemTime st) - 10000\<bar>
   \<and> (timeDrift st now > 10000 div 2 \<longrightarrow>
        driftCheck st now = (scheduleAthanCalls st now)\<lparr>lastSystemTime := epoch_ms now\<rparr>)
   \<and> (timeDrift st now \<le> 10000 div 2 \<longrightarrow>
        driftCheck st now = st\<lparr>lastSystemTime := epoch_ms now\<rparr>
        \<and> scheduledJobs (driftCheck st now) = scheduledJobs st)"
  by (simp add: timeDrift_def driftCheck_def Let_def)


theorem drift_beyond_half_period_rearms_witness:
  "timeDrift armedState (clockAt 20000 7 0 10) = 7200000
   \<and> map (\<lambda>j. rowKey (job_prayer j)) (scheduledJobs armedState)
        = [(20000, ''Fajr''), (20000, ''Dhuhr''), (20001, ''Fajr''), (20001, ''Dhuhr'')]
   \<and> map (\<lambda>j. rowKey (job_prayer j)) (scheduledJobs (driftCheck armedState (clockAt 20000 7 0 10)))
        = [(20000, ''Dhuhr''), (20001, ''Fajr''), (20001, ''Dhuhr'')]
   \<and> timeDrift armedState (clockAt 20000 5 0 10) = 0
   \<and> scheduledJobs (driftCheck armedState (clockAt 20000 5 0 10)) = scheduledJobs armedState"
proof -
  have p: "armedState = armedState\<lparr>prayers := scenarioCalendar\<rparr>"
    by (simp add: armedState_def scheduleAthanCalls_def startupState_def Let_def)
  have d1: "timeDrift armedState (clockAt 20000 7 0 10) = 7200000"
    by (simp add: timeDrift_def armedState_def clockAt_def scheduleAthanCalls_def Let_def)
  have d2: "timeDrift armedState (clockAt 20000 5 0 10) = 0"
    by (simp add: timeDrift_def armedState_def clockAt_def scheduleAthanCalls_def Let_def)
  have j0: "map (\<lambda>j. rowKey (job_prayer j)) (scheduledJobs armedState)
        = [(20000, ''Fajr''), (20000, ''Dhuhr''), (20001, ''Fajr''), (20001, ''Dhuhr'')]"
    unfolding armedState_def
    by (simp add: scheduleAthanCalls_def Let_def formatDateLocal_def tomorrowOf_def
        startupState_def scenario_two_days prayerDateTime_def localSeconds_def rowKey_def clockAt_def)
  have j1: "map (\<lambda>j. rowKey (job_prayer j))
       (scheduledJobs (scheduleAthanCalls armedState (clockAt 20000 7 0 10)))
        = [(20000, ''Dhuhr''), (20001, ''Fajr''), (20001, ''Dhuhr'')]"
    by (subst p, subst scenario_jobs)
       (simp add: scenario_two_days prayerDateTime_def localSeconds_def rowKey_def clockAt_def)
  show ?thesis
    using drift_beyond_half_period_rearms[of armedState "clockAt 20000 7 0 10"]
      drift_beyond_half_period_rearms[of armedState "clockAt 20000 5 0 10"] d1 d2 j0 j1
    by simp
qed

subsection \<open>C6: the next upcoming prayer\<close>

lemma future_today_iff:
  assumes "date r = local_day now" "validClock now" "snd (prayer_time r) < 60"
  shows "prayer_time r > toTimeHHMM now \<longleftrightarrow> prayerDateTime r > localSeconds now"
proof -
  obtain H M where t: "prayer_time r = (H, M)" by (cases "prayer_time r")
  show ?thesis
    using assms unfolding t prayerDateTime_def localSeconds_def toTimeHHMM_def validClock_def t
    by (simp add: t) linarith
qed

lemma clock_order_is_time_order:
  assumes "date r = date c" "snd (prayer_time r) < 60" "prayer_time r \<le> prayer_time c"
  shows "prayerDateTime r \<le> prayerDateTime c"
proof -
  obtain H M where t: "prayer_time r = (H, M)" by (cases "prayer_time r")
  obtain H' M' where t': "prayer_time c = (H', M')" by (cases "prayer_time c")
  show ?thesis
    using assms unfolding prayerDateTime_def t t'
    by simp linarith
qed

lemma firstRow_sort_key_Some:
  fixes f :: "'a \<Rightarrow> 'b::linorder"
  shows "xs \<noteq> [] \<Longrightarrow> \<exists>r. firstRow (sort_key f xs) = Some r"
  using firstRow_sort_key_None[of f xs] by (cases "firstRow (sort_key f xs)") auto

lemma scenario_minutes: "\<forall>r\<in>set (prayers (startupState scenarioCalendar)). snd (prayer_time r) < 60"
  by (simp add: startupState_def scenarioCalendar_def)

lemma scenario_next:
  "nextUpcoming (startupState scenarioCalendar) (clockAt 20000 6 0 0)
     = Some \<lparr>date = 20000, prayer_name = ''Fajr'', prayer_time = (6, 30)\<rparr>"
  "nextUpcoming (startupState scenarioCalendar) (clockAt 20000 7 0 0)
     = Some \<lparr>date = 20000, prayer_name = ''Dhuhr'', prayer_time = (12, 45)\<rparr>"
  "nextUpcoming (startupState scenarioCalendar) (clockAt 20000 23 0 0)
     = Some \<lparr>date = 20001, prayer_name = ''Fajr'', prayer_time = (6, 31)\<rparr>"
  "nextUpcoming (startupState scenarioCalendar) (clockAt 20001 23 0 0) = None"
  by (simp_all add: nextUpcoming_def selectNextOn_def selectFirstOn_def selectMainOn_def
      firstRow_def scenarioCalendar_def startupState_def tomorrowOf_def
      mainPrayers_def clockAt_def formatDateLocal_def toTimeHHMM_def)

text \<open>
  C6. On a well-formed clock and calendar (minutes and seconds below 60): when a canonical
  prayer of today lies strictly after now, nextUpcoming returns one, and no canonical
  prayer of today after now is earlier than it; when none is left today and tomorrow has a
  canonical prayer, it returns a canonical prayer of tomorrow that none of tomorrow's
  precedes; it returns null exactly when neither exists, so in particular when the
  calendar has no canonical row for today or tomorrow.
\<close>

theorem nextUpcoming_earliest_future_else_tomorrow:
  assumes clock: "validClock now"
    and rows: "\<forall>r\<in>set (prayers st). snd (prayer_time r) < 60"
  shows
   "((\<exists>c\<in>set (prayers st). date c = local_day now \<and> prayer_name c \<in> set mainPrayers
         \<and> prayerDateTime c > localSeconds now) \<longrightarrow>
       (\<exists>r\<in>set (prayers st). nextUpcoming st now = Some r
          \<and> date r = local_day now \<and> prayer_name r \<in> set mainPrayers
          \<and> prayerDateTime r > localSeconds now
          \<and> (\<forall>c\<in>set (prayers st). date c = local_day now \<and> prayer_name c \<in> set mainPrayers
                \<and> prayerDateTime c > localSeconds now \<longrightarrow> prayerDateTime r \<le> prayerDateTime c)))
    \<and> (\<not> (\<exists>c\<in>set (prayers st). date c = local_day now \<and> prayer_name c \<in> set mainPrayers
         \<and> prayerDateTime c > localSeconds now) \<and>
        (\<exists>c\<in>set (prayers st). date c = local_day now + 1 \<and> prayer_name c \<in> set mainPrayers) \<longrightarrow>
       (\<exists>r\<in>set (prayers st). nextUpcoming st now = Some r
          \<and> date r = local_day now + 1 \<and> prayer_name r \<in> set mainPrayers
          \<and> (\<forall>c\<in>set (prayers st). date c = local_day now + 1 \<and> prayer_name c \<in> set mainPrayers
                \<longrightarrow> prayerDateTime r \<le> prayerDateTime c)))
    \<and> (nextUpcoming st now = None \<longleftrightarrow>
         \<not> (\<exists>c\<in>set (prayers st). date c = local_day now \<and> prayer_name c \<in> set mainPrayers
              \<and> prayerDateTime c > localSeconds now)
         \<and> \<not> (\<exists>c\<in>set (prayers st). date c = local_day now + 1 \<and> prayer_name c \<in> set mainPrayers))"
proof -
  let ?today = "filter (\<lambda>r. date r = formatDateLocal now \<and> prayer_time r > toTimeHHMM now
                  \<and> prayer_name r \<in> set mainPrayers) (prayers st)"
  let ?tomorrow = "filter (\<lambda>r. date r = tomorrowOf now \<and> prayer_name r \<in> set mainPrayers) (prayers st)"
  let ?fut = "\<lambda>c. date c = local_day now \<and> prayer_name c \<in> set mainPrayers
                 \<and> prayerDateTime c > localSeconds now"
  let ?tom = "\<lambda>c. date c = local_day now + 1 \<and> prayer_name c \<in> set mainPrayers"
  have today_set: "set ?today = {c \<in> set (prayers st). ?fut c}"
    using future_today_iff[OF _ clock] rows by (auto simp: formatDateLocal_def)
  have tomorrow_set: "set ?tomorrow = {c \<in> set (prayers st). ?tom c}"
    by (auto simp: tomorrowOf_def formatDateLocal_def)
  have next_def: "selectNextOn (prayers st) (formatDateLocal now) (toTimeHHMM now)
                   = firstRow (sort_key prayer_time ?today)"
    by (simp add: selectNextOn_def)
  have first_def: "selectFirstOn (prayers st) (tomorrowOf now) = firstRow (sort_key prayer_time ?tomorrow)"
    by (simp add: selectFirstOn_def selectMainOn_def)
  have A: "\<exists>r\<in>set (prayers st). nextUpcoming st now = Some r \<and> ?fut r
             \<and> (\<forall>c\<in>set (prayers st). ?fut c \<longrightarrow> prayerDateTime r \<le> prayerDateTime c)"
    if ex: "\<exists>c\<in>set (prayers st). ?fut c"
  proof -
    from ex have "?today \<noteq> []" using today_set by (metis (mono_tags, lifting) empty_iff empty_set mem_Collect_eq)
    then obtain r where r: "firstRow (sort_key prayer_time ?today) = Some r"
      using firstRow_sort_key_Some by blast
    from firstRow_sort_key[OF r] have rin: "r \<in> set ?today"
      and rmin: "\<forall>x\<in>set ?today. prayer_time r \<le> prayer_time x" by blast+
    from rin today_set have rf: "r \<in> set (prayers st)" "?fut r" by auto
    have "prayerDateTime r \<le> prayerDateTime c" if "c \<in> set (prayers st)" "?fut c" for c
    proof -
      from that today_set have "c \<in> set ?today" by auto
      with rmin have "prayer_time r \<le> prayer_time c" by blast
      moreover have "date r = date c" using rf that by simp
      moreover have "snd (prayer_time r) < 60" using rows rf by blast
      ultimately show ?thesis by (rule clock_order_is_time_order[rotated 2])
    qed
    moreover have "nextUpcoming st now = Some r"
      by (simp add: nextUpcoming_def next_def r)
    ultimately show ?thesis using rf by blast
  qed
  have today_none: "selectNextOn (prayers st) (formatDateLocal now) (toTimeHHMM now) = None"
    if "\<not> (\<exists>c\<in>set (prayers st). ?fut c)"
  proof -
    from that today_set have "set ?today = {}" by auto
    then have "?today = []" by simp
    then show ?thesis unfolding next_def by (simp add: firstRow_def)
  qed
  have B: "\<exists>r\<in>set (prayers st). nextUpcoming st now = Some r \<and> ?tom r
             \<and> (\<forall>c\<in>set (prayers st). ?tom c \<longrightarrow> prayerDateTime r \<le> prayerDateTime c)"
    if nofut: "\<not> (\<exists>c\<in>set (prayers st). ?fut c)" and ex: "\<exists>c\<in>set (prayers st). ?tom c"
  proof -
    from ex have "?tomorrow \<noteq> []" using tomorrow_set by (metis (mono_tags, lifting) empty_iff empty_set mem_Collect_eq)
    then obtain r where r: "firstRow (sort_key prayer_time ?tomorrow) = Some r"
      using firstRow_sort_key_Some by blast
    from firstRow_sort_key[OF r] have rin: "r \<in> set ?tomorrow"
      and rmin: "\<forall>x\<in>set ?tomorrow. prayer_time r \<le> prayer_time x" by blast+
    from rin tomorrow_set have rf: "r \<in> set (prayers st)" "?tom r" by auto
    have "prayerDateTime r \<le> prayerDateTime c" if "c \<in> set (prayers st)" "?tom c" for c
    proof -
      from that tomorrow_set have "c \<in> set ?tomorrow" by auto
      with rmin have "prayer_time r \<le> prayer_time c" by blast
      moreover have "date r = date c" using rf that by simp
      moreover have "snd (prayer_time r) < 60" using rows rf by blast
      ultimately show ?thesis by (rule clock_order_is_time_order[rotated 2])
    qed
    moreover have "nextUpcoming st now = Some r"
      by (simp add: nextUpcoming_def today_none[OF nofut] first_def r)
    ultimately show ?thesis using rf by blast
  qed
  have C: "nextUpcoming st now = None"
    if nofut: "\<not> (\<exists>c\<in>set (prayers st). ?fut c)" and notom: "\<not> (\<exists>c\<in>set (prayers st). ?tom c)"
  proof -
    from notom tomorrow_set have "set ?tomorrow = {}" by auto
    then have "?tomorrow = []" by simp
    then show ?thesis
      by (simp add: nextUpcoming_def today_none[OF nofut] first_def firstRow_def)
  qed
  show ?thesis
  proof (intro conjI impI)
    show "nextUpcoming st now = None \<longleftrightarrow>
         \<not> (\<exists>c\<in>set (prayers st). ?fut c) \<and> \<not> (\<exists>c\<in>set (prayers st). ?tom c)"
      using A B C by (metis option.distinct(1))
  qed (use A B in blast)+
qed

text \<open>
  The scenario of the calendar with Fajr at 06:30 and Dhuhr at 12:45: at 06:00 the answer is
  Fajr, at 07:00 Dhuhr, at 23:00 tomorrow's Fajr.
\<close>

theorem nextUpcoming_earliest_future_else_tomorrow_witness:
  "validClock (clockAt 20000 7 0 0)
   \<and> list_all (\<lambda>r. snd (prayer_time r) < 60) (prayers (startupState scenarioCalendar))
   \<and> nextUpcoming (startupState scenarioCalendar) (clockAt 20000 6 0 0)
       = Some \<lparr>date = 20000, prayer_name = ''Fajr'', prayer_time = (6, 30)\<rparr>
   \<and> nextUpcoming (startupState scenarioCalendar) (clockAt 20000 7 0 0)
       = Some \<lparr>date = 20000, prayer_name = ''Dhuhr'', prayer_time = (12, 45)\<rparr>
   \<and> prayerDateTime \<lparr>date = 20000, prayer_name = ''Dhuhr'', prayer_time = (12, 45)\<rparr>
       > localSeconds (clockAt 20000 7 0 0)
   \<and> nextUpcoming (startupState scenarioCalendar) (clockAt 20000 23 0 0)
       = Some \<lparr>date = 20001, prayer_name = ''Fajr'', prayer_time = (6, 31)\<rparr>
   \<and> nextUpcoming (startupState scenarioCalendar) (clockAt 20001 23 0 0) = None"
proof -
  let ?st = "startupState scenarioCalendar"
  let ?dhuhr = "\<lparr>date = 20000, prayer_name = ''Dhuhr'', prayer_time = (12, 45)\<rparr>"
  have clock: "validClock (clockAt 20000 7 0 0)" by (simp add: validClock_def clockAt_def)
  have cand: "\<exists>c\<in>set (prayers ?st). date c = local_day (clockAt 20000 7 0 0)
        \<and> prayer_name c \<in> set mainPrayers \<and> prayerDateTime c > localSeconds (clockAt 20000 7 0 0)"
    by (simp add: startupState_def scenarioCalendar_def clockAt_def mainPrayers_def
        prayerDateTime_def localSeconds_def)
  from nextUpcoming_earliest_future_else_tomorrow[OF clock scenario_minutes] cand
  obtain r where r: "nextUpcoming ?st (clockAt 20000 7 0 0) = Some r"
    and fut: "prayerDateTime r > localSeconds (clockAt 20000 7 0 0)"
    by blast
  from r have "r = ?dhuhr" by (simp add: scenario_next)
  with fut have "prayerDateTime ?dhuhr > localSeconds (clockAt 20000 7 0 0)" by simp
  moreover have "list_all (\<lambda>r. snd (prayer_time r) < 60) (prayers ?st)"
    using scenario_minutes by (simp add: list_all_iff)
  ultimately show ?thesis using clock by (simp add: scenario_next)
qed

subsection \<open>C10: muting the next athan\<close>

lemma count_friday: "disabledCount (prayer_schedule fajrOffFriday) ''Fajr'' = 1"
  by (simp add: disabledCount_def fajrOffFriday_def initialSchedule_def mainPrayers_def upt_rec)

lemma selectNextOn_Some:
  assumes clock: "validClock now"
    and rows: "\<forall>r\<in>set (prayers st). snd (prayer_time r) < 60"
    and sel: "selectNextOn (prayers st) (formatDateLocal now) (toTimeHHMM now) = Some r"
  shows "r \<in> set (prayers st) \<and> date r = local_day now \<and> prayer_name r \<in> set mainPrayers
       \<and> prayerDateTime r > localSeconds now
       \<and> (\<forall>c\<in>set (prayers st). date c = local_day now \<and> prayer_name c \<in> set mainPrayers
             \<and> prayerDateTime c > localSeconds now \<longrightarrow> prayerDateTime r \<le> prayerDateTime c)"
proof -
  let ?today = "filter (\<lambda>r. date r = formatDateLocal now \<and> prayer_time r > toTimeHHMM now
                  \<and> prayer_name r \<in> set mainPrayers) (prayers st)"
  from sel have fr: "firstRow (sort_key prayer_time ?today) = Some r"
    by (simp add: selectNextOn_def)
  from firstRow_sort_key[OF fr] have rin: "r \<in> set ?today"
    and rmin: "\<forall>x\<in>set ?today. prayer_time r \<le> prayer_time x" by blast+
  from rin have mem: "r \<in> set (prayers st)" and d: "date r = local_day now"
    and late: "prayer_time r > toTimeHHMM now" and canon: "prayer_name r \<in> set mainPrayers"
    by (simp_all add: formatDateLocal_def)
  from rows mem have mr: "snd (prayer_time r) < 60" by blast
  from future_today_iff[OF d clock mr] late have fut: "prayerDateTime r > localSeconds now" by simp
  have "prayerDateTime r \<le> prayerDateTime c"
    if c: "c \<in> set (prayers st)" "date c = local_day now" "prayer_name c \<in> set mainPrayers"
      "prayerDateTime c > localSeconds now" for c
  proof -
    from rows c(1) have "snd (prayer_time c) < 60" by blast
    from future_today_iff[OF c(2) clock this] c(4) have "prayer_time c > toTimeHHMM now" by simp
    with c have "c \<in> set ?today" by (simp add: formatDateLocal_def)
    with rmin have "prayer_time r \<le> prayer_time c" by blast
    moreover have "date r = date c" using d c(2) by simp
    ultimately show ?thesis using mr by (intro clock_order_is_time_order)
  qed
  with mem d canon fut show ?thesis by blast
qed

lemma selectNextOn_None:
  assumes clock: "validClock now"
    and rows: "\<forall>r\<in>set (prayers st). snd (prayer_time r) < 60"
  shows "selectNextOn (prayers st) (formatDateLocal now) (toTimeHHMM now) = None \<longleftrightarrow>
         \<not> (\<exists>c\<in>set (prayers st). date c = local_day now \<and> prayer_name c \<in> set mainPrayers
               \<and> prayerDateTime c > localSeconds now)"
proof -
  have "selectNextOn (prayers st) (formatDateLocal now) (toTimeHHMM now) = None \<longleftrightarrow>
        filter (\<lambda>r. date r = formatDateLocal now \<and> prayer_time r > toTimeHHMM now
                  \<and> prayer_name r \<in> set mainPrayers) (prayers st) = []"
    by (simp add: selectNextOn_def firstRow_sort_key_None)
  also have "\<dots> \<longleftrightarrow> \<not> (\<exists>c\<in>set (prayers st). date c = local_day now
        \<and> prayer_name c \<in> set mainPrayers \<and> prayerDateTime c > localSeconds now)"
    using future_today_iff[OF _ clock] rows
    by (auto simp: filter_empty_conv formatDateLocal_def)
  finally show ?thesis .
qed

lemma selectFirstOn_Some:
  assumes rows: "\<forall>r\<in>set tbl. snd (prayer_time r) < 60"
    and sel: "selectFirstOn tbl d = Some r"
  shows "r \<in> set tbl \<and> date r = d \<and> prayer_name r \<in> set mainPrayers
       \<and> (\<forall>c\<in>set tbl. date c = d \<and> prayer_name c \<in> set mainPrayers
             \<longrightarrow> prayerDateTime r \<le> prayerDateTime c)"
proof -
  let ?day = "filter (\<lambda>r. date r = d \<and> prayer_name r \<in> set mainPrayers) tbl"
  from sel have fr: "firstRow (sort_key prayer_time ?day) = Some r"
    by (simp add: selectFirstOn_def selectMainOn_def)
  from firstRow_sort_key[OF fr] have rin: "r \<in> set ?day"
    and rmin: "\<forall>x\<in>set ?day. prayer_time r \<le> prayer_time x" by blast+
  from rin have mem: "r \<in> set tbl" and dr: "date r = d" and canon: "prayer_name r \<in> set mainPrayers"
    by simp_all
  from rows mem have mr: "snd (prayer_time r) < 60" by blast
  have "prayerDateTime r \<le> prayerDateTime c"
    if c: "c \<in> set tbl" "date c = d" "prayer_name c \<in> set mainPrayers" for c
  proof -
    from c have "c \<in> set ?day" by simp
    with rmin have "prayer_time r \<le> prayer_time c" by blast
    moreover have "date r = date c" using dr c(2) by simp
    ultimately show ?thesis using mr by (intro clock_order_is_time_order)
  qed
  with mem dr canon show ?thesis by blast
qed

lemma selectFirstOn_None:
  "selectFirstOn tbl d = None \<longleftrightarrow>
     \<not> (\<exists>c\<in>set tbl. date c = d \<and> prayer_name c \<in> set mainPrayers)"
  by (auto simp: selectFirstOn_def selectMainOn_def firstRow_sort_key_None filter_empty_conv)

lemma scenario_next_at_eleven:
  "prayers st = scenarioCalendar \<Longrightarrow>
   nextUpcoming st (clockAt 20000 23 0 0)
     = Some \<lparr>date = 20001, prayer_name = ''Fajr'', prayer_time = (6, 31)\<rparr>"
  by (simp add: nextUpcoming_def selectNextOn_def selectFirstOn_def selectMainOn_def firstRow_def
      scenarioCalendar_def mainPrayers_def clockAt_def formatDateLocal_def toTimeHHMM_def
      tomorrowOf_def)

lemma scenario_candidates:
  "prayers st = scenarioCalendar \<Longrightarrow>
   \<exists>c\<in>set (prayers st). date c = local_day (clockAt 20000 6 0 0) \<and> prayer_name c \<in> set mainPrayers
       \<and> prayerDateTime c > localSeconds (clockAt 20000 6 0 0)"
  "prayers st = scenarioCalendar \<Longrightarrow>
   \<not> (\<exists>c\<in>set (prayers st). date c = local_day (clockAt 20000 23 0 0)
       \<and> prayer_name c \<in> set mainPrayers \<and> prayerDateTime c > localSeconds (clockAt 20000 23 0 0))"
  "prayers st = scenarioCalendar \<Longrightarrow>
   \<exists>c\<in>set (prayers st). date c = local_day (clockAt 20000 23 0 0) + 1
       \<and> prayer_name c \<in> set mainPrayers"
  "prayers st = scenarioCalendar \<Longrightarrow>
   \<not> (\<exists>c\<in>set (prayers st). date c = local_day (clockAt 20001 23 0 0)
       \<and> prayer_name c \<in> set mainPrayers \<and> prayerDateTime c > localSeconds (clockAt 20001 23 0 0))"
  "prayers st = scenarioCalendar \<Longrightarrow>
   \<not> (\<exists>c\<in>set (prayers st). date c = local_day (clockAt 20001 23 0 0) + 1
       \<and> prayer_name c \<in> set mainPrayers)"
  by (simp_all add: scenarioCalendar_def clockAt_def mainPrayers_def prayerDateTime_def
      localSeconds_def)

text \<open>
  C10. On a well-formed clock and calendar, both routes that set the one-shot mute decide
  on the next upcoming canonical prayer: the earliest canonical prayer of today strictly
  after now or, when none is left today, the earliest canonical prayer of tomorrow. When
  that prayer is disabled on all seven weekdays the request is rejected with the message
  naming it (status 400 from skip-next, success false from mute-next-athan) and the state
  is unchanged; when it is enabled on at least one weekday, and when there is no such
  prayer today or tomorrow, the skip flag is set to 1.
\<close>

theorem skip_next_rejected_only_when_disabled_all_week:
  assumes clock: "validClock now"
    and rows: "\<forall>r\<in>set (prayers st). snd (prayer_time r) < 60"
  shows
   "((\<exists>c\<in>set (prayers st). date c = local_day now \<and> prayer_name c \<in> set mainPrayers
         \<and> prayerDateTime c > localSeconds now) \<longrightarrow>
       (\<exists>r\<in>set (prayers st). nextUpcoming st now = Some r
          \<and> date r = local_day now \<and> prayer_name r \<in> set mainPrayers
          \<and> prayerDateTime r > localSeconds now
          \<and> (\<forall>c\<in>set (prayers st). date c = local_day now \<and> prayer_name c \<in> set mainPrayers
                \<and> prayerDateTime c > localSeconds now \<longrightarrow> prayerDateTime r \<le> prayerDateTime c)
          \<and> (if \<forall>d<7. prayer_schedule st (prayer_name r, d) = Some 0
              then postSkipNext st now =
                     (st, Reply 400 False (prayer_name r @ '' is already muted in general settings''))
                 \<and> getMuteNextAthan st now =
                     (st, Reply 200 False (prayer_name r @ '' is already muted in general settings''))
              else postSkipNext st now = (setSkip st, Reply 200 True ''Next athan will be skipped'')
                 \<and> getMuteNextAthan st now =
                     (setSkip st, Reply 200 True ''Next athan has been muted successfully''))))
    \<and> (\<not> (\<exists>c\<in>set (prayers st). date c = local_day now \<and> prayer_name c \<in> set mainPrayers
         \<and> prayerDateTime c > localSeconds now) \<and>
        (\<exists>c\<in>set (prayers st). date c = local_day now + 1 \<and> prayer_name c \<in> set mainPrayers) \<longrightarrow>
       (\<exists>r\<in>set (prayers st). nextUpcoming st now = Some r
          \<and> date r = local_day now + 1 \<and> prayer_name r \<in> set mainPrayers
          \<and> (\<forall>c\<in>set (prayers st). date c = local_day now + 1 \<and> prayer_name c \<in> set mainPrayers
                \<longrightarrow> prayerDateTime r \<le> prayerDateTime c)
          \<and> (if \<forall>d<7. prayer_schedule st (prayer_name r, d) = Some 0
              then postSkipNext st now =
                     (st, Reply 400 False (prayer_name r @ '' is already muted in general settings''))
                 \<and> getMuteNextAthan st now =
                     (st, Reply 200 False (prayer_name r @ '' is already muted in general settings''))
              else postSkipNext st now = (setSkip st, Reply 200 True ''Next athan will be skipped'')
                 \<and> getMuteNextAthan st now =
                     (setSkip st, Reply 200 True ''Next athan has been muted successfully''))))
    \<and> (\<not> (\<exists>c\<in>set (prayers st). date c = local_day now \<and> prayer_name c \<in> set mainPrayers
         \<and> prayerDateTime c > localSeconds now) \<and>
        \<not> (\<exists>c\<in>set (prayers st). date c = local_day now + 1 \<and> prayer_name c \<in> set mainPrayers) \<longrightarrow>
       nextUpcoming st now = None
       \<and> postSkipNext st now = (setSkip st, Reply 200 True ''Next athan will be skipped'')
       \<and> getMuteNextAthan st now =
           (setSkip st, Reply 200 True ''Next athan has been muted successfully''))
    \<and> map_option skip (skip_next (setSkip st)) = map_option (\<lambda>x. 1) (skip_next st)"
proof -
  let ?fut = "\<exists>c\<in>set (prayers st). date c = local_day now \<and> prayer_name c \<in> set mainPrayers
                 \<and> prayerDateTime c > localSeconds now"
  let ?tom = "\<exists>c\<in>set (prayers st). date c = local_day now + 1 \<and> prayer_name c \<in> set mainPrayers"
  let ?next = "selectNextOn (prayers st) (formatDateLocal now) (toTimeHHMM now)"
  let ?first = "selectFirstOn (prayers st) (tomorrowOf now)"
  have tomorrow: "tomorrowOf now = local_day now + 1"
    by (simp add: tomorrowOf_def formatDateLocal_def)
  have A: ?thesis if fut: ?fut
  proof -
    from fut selectNextOn_None[OF clock rows] obtain r where r: "?next = Some r"
      by (cases ?next) auto
    note pin = selectNextOn_Some[OF clock rows r]
    have n: "nextUpcoming st now = Some r" by (simp add: nextUpcoming_def r)
    have reply: "if \<forall>d<7. prayer_schedule st (prayer_name r, d) = Some 0
              then postSkipNext st now =
                     (st, Reply 400 False (prayer_name r @ '' is already muted in general settings''))
                 \<and> getMuteNextAthan st now =
                     (st, Reply 200 False (prayer_name r @ '' is already muted in general settings''))
              else postSkipNext st now = (setSkip st, Reply 200 True ''Next athan will be skipped'')
                 \<and> getMuteNextAthan st now =
                     (setSkip st, Reply 200 True ''Next athan has been muted successfully'')"
      by (simp add: postSkipNext_def getMuteNextAthan_def Let_def r disabledCount_seven)
    have flag: "map_option skip (skip_next (setSkip st)) = map_option (\<lambda>x. 1) (skip_next st)"
      by (simp add: setSkip_def option.map_comp comp_def)
    from pin n reply have "\<exists>r\<in>set (prayers st). nextUpcoming st now = Some r
          \<and> date r = local_day now \<and> prayer_name r \<in> set mainPrayers
          \<and> prayerDateTime r > localSeconds now
          \<and> (\<forall>c\<in>set (prayers st). date c = local_day now \<and> prayer_name c \<in> set mainPrayers
                \<and> prayerDateTime c > localSeconds now \<longrightarrow> prayerDateTime r \<le> prayerDateTime c)
          \<and> (if \<forall>d<7. prayer_schedule st (prayer_name r, d) = Some 0
              then postSkipNext st now =
                     (st, Reply 400 False (prayer_name r @ '' is already muted in general settings''))
                 \<and> getMuteNextAthan st now =
                     (st, Reply 200 False (prayer_name r @ '' is already muted in general settings''))
              else postSkipNext st now = (setSkip st, Reply 200 True ''Next athan will be skipped'')
                 \<and> getMuteNextAthan st now =
                     (setSkip st, Reply 200 True ''Next athan has been muted successfully''))"
      by blast
    with fut flag show ?thesis by blast
  qed
  have B: ?thesis if nofut: "\<not> ?fut" and tom: ?tom
  proof -
    from nofut selectNextOn_None[OF clock rows] have none: "?next = None" by simp
    from tom selectFirstOn_None[of "prayers st" "tomorrowOf now"] tomorrow
    obtain r where r: "?first = Some r" by (cases ?first) auto
    note pin = selectFirstOn_Some[OF rows r, unfolded tomorrow]
    have n: "nextUpcoming st now = Some r" by (simp add: nextUpcoming_def none r)
    have reply: "if \<forall>d<7. prayer_schedule st (prayer_name r, d) = Some 0
              then postSkipNext st now =
                     (st, Reply 400 False (prayer_name r @ '' is already muted in general settings''))
                 \<and> getMuteNextAthan st now =
                     (st, Reply 200 False (prayer_name r @ '' is already muted in general settings''))
              else postSkipNext st now = (setSkip st, Reply 200 True ''Next athan will be skipped'')
                 \<and> getMuteNextAthan st now =
                     (setSkip st, Reply 200 True ''Next athan has been muted successfully'')"
      by (simp add: postSkipNext_def getMuteNextAthan_def Let_def none r disabledCount_seven)
    have flag: "map_option skip (skip_next (setSkip st)) = map_option (\<lambda>x. 1) (skip_next st)"
      by (simp add: setSkip_def option.map_comp comp_def)
    from pin n reply have "\<exists>r\<in>set (prayers st). nextUpcoming st now = Some r
          \<and> date r = local_day now + 1 \<and> prayer_name r \<in> set mainPrayers
          \<and> (\<forall>c\<in>set (prayers st). date c = local_day now + 1 \<and> prayer_name c \<in> set mainPrayers
                \<longrightarrow> prayerDateTime r \<le> prayerDateTime c)
          \<and> (if \<forall>d<7. prayer_schedule st (prayer_name r, d) = Some 0
              then postSkipNext st now =
                     (st, Reply 400 False (prayer_name r @ '' is already muted in general settings''))
                 \<and> getMuteNextAthan st now =
                     (st, Reply 200 False (prayer_name r @ '' is already muted in general settings''))
              else postSkipNext st now = (setSkip st, Reply 200 True ''Next athan will be skipped'')
                 \<and> getMuteNextAthan st now =
                     (setSkip st, Reply 200 True ''Next athan has been muted successfully''))"
      by blast
    with nofut tom flag show ?thesis by blast
  qed
  have C: ?thesis if nofut: "\<not> ?fut" and notom: "\<not> ?tom"
  proof -
    from nofut selectNextOn_None[OF clock rows] have none: "?next = None" by simp
    from notom selectFirstOn_None[of "prayers st" "tomorrowOf now"] tomorrow
    have none': "?first = None" by simp
    have "nextUpcoming st now = None
       \<and> postSkipNext st now = (setSkip st, Reply 200 True ''Next athan will be skipped'')
       \<and> getMuteNextAthan st now =
           (setSkip st, Reply 200 True ''Next athan has been muted successfully'')"
      by (simp add: nextUpcoming_def postSkipNext_def getMuteNextAthan_def Let_def none none')
    moreover have "map_option skip (skip_next (setSkip st)) = map_option (\<lambda>x. 1) (skip_next st)"
      by (simp add: setSkip_def option.map_comp comp_def)
    ultimately show ?thesis using nofut notom by blast
  qed
  from A B C show ?thesis by blast
qed

text \<open>
  With Fajr disabled all week the request is rejected at 06:00 (today's Fajr is next) and
  at 23:00 (tomorrow's Fajr is next); with Fajr disabled on Friday only it is accepted at
  both; at 23:00 of the calendar's last day there is no next prayer and it is accepted.
\<close>

theorem skip_next_rejected_only_when_disabled_all_week_witness:
  "validClock (clockAt 20000 6 0 0) \<and> validClock (clockAt 20000 23 0 0)
   \<and> validClock (clockAt 20001 23 0 0)
   \<and> list_all (\<lambda>r. snd (prayer_time r) < 60) (prayers fajrOffAllWeek)
   \<and> list_all (\<lambda>r. snd (prayer_time r) < 60) (prayers fajrOffFriday)
   \<and> disabledCount (prayer_schedule fajrOffAllWeek) ''Fajr'' = 7
   \<and> disabledCount (prayer_schedule fajrOffFriday) ''Fajr'' = 1
   \<and> prayer_schedule fajrOffFriday (''Fajr'', dayIndex (clockAt 20000 6 0 0)) = Some 0
   \<and> map_option skip (skip_next fajrOffAllWeek) = Some 0
   \<and> nextUpcoming fajrOffAllWeek (clockAt 20000 6 0 0)
       = Some \<lparr>date = 20000, prayer_name = ''Fajr'', prayer_time = (6, 30)\<rparr>
   \<and> postSkipNext fajrOffAllWeek (clockAt 20000 6 0 0)
       = (fajrOffAllWeek, Reply 400 False ''Fajr is already muted in general settings'')
   \<and> nextUpcoming fajrOffAllWeek (clockAt 20000 23 0 0)
       = Some \<lparr>date = 20001, prayer_name = ''Fajr'', prayer_time = (6, 31)\<rparr>
   \<and> postSkipNext fajrOffAllWeek (clockAt 20000 23 0 0)
       = (fajrOffAllWeek, Reply 400 False ''Fajr is already muted in general settings'')
   \<and> getMuteNextAthan fajrOffAllWeek (clockAt 20000 23 0 0)
       = (fajrOffAllWeek, Reply 200 False ''Fajr is already muted in general settings'')
   \<and> snd (getMuteNextAthan fajrOffFriday (clockAt 20000 6 0 0))
       = Reply 200 True ''Next athan has been muted successfully''
   \<and> map_option skip (skip_next (fst (getMuteNextAthan fajrOffFriday (clockAt 20000 6 0 0)))) = Some 1
   \<and> snd (postSkipNext fajrOffFriday (clockAt 20000 23 0 0))
       = Reply 200 True ''Next athan will be skipped''
   \<and> map_option skip (skip_next (fst (postSkipNext fajrOffFriday (clockAt 20000 23 0 0)))) = Some 1
   \<and> nextUpcoming fajrOffAllWeek (clockAt 20001 23 0 0) = None
   \<and> map_option skip (skip_next (fst (postSkipNext fajrOffAllWeek (clockAt 20001 23 0 0)))) = Some 1"
proof -
  let ?six = "clockAt 20000 6 0 0"
  let ?eleven = "clockAt 20000 23 0 0"
  let ?late = "clockAt 20001 23 0 0"
  let ?fajr = "\<lparr>date = 20000, prayer_name = ''Fajr'', prayer_time = (6, 30)\<rparr>"
  let ?fajr' = "\<lparr>date = 20001, prayer_name = ''Fajr'', prayer_time = (6, 31)\<rparr>"
  have clocks: "validClock ?six" "validClock ?eleven" "validClock ?late"
    by (simp_all add: validClock_def clockAt_def)
  have t1: "prayers fajrOffAllWeek = scenarioCalendar"
    by (simp add: fajrOffAllWeek_def startupState_def)
  have t2: "prayers fajrOffFriday = scenarioCalendar"
    by (simp add: fajrOffFriday_def startupState_def)
  have m1: "\<forall>r\<in>set (prayers fajrOffAllWeek). snd (prayer_time r) < 60"
    unfolding t1 by (simp add: scenarioCalendar_def)
  have m2: "\<forall>r\<in>set (prayers fajrOffFriday). snd (prayer_time r) < 60"
    unfolding t2 by (simp add: scenarioCalendar_def)
  have off: "\<forall>d<7. prayer_schedule fajrOffAllWeek (''Fajr'', d) = Some 0"
    by (simp add: fajrOffAllWeek_def)
  have cnt: "disabledCount (prayer_schedule fajrOffAllWeek) ''Fajr'' = 7"
    using off by (simp add: disabledCount_seven)
  have part: "\<not> (\<forall>d<7. prayer_schedule fajrOffFriday (''Fajr'', d) = Some 0)"
    using count_friday disabledCount_seven[of "prayer_schedule fajrOffFriday" "''Fajr''"] by simp
  have today: "prayer_schedule fajrOffFriday (''Fajr'', dayIndex ?six) = Some 0"
    by (simp add: fajrOffFriday_def dayIndex_def getDay_def clockAt_def)
  have s0: "map_option skip (skip_next fajrOffAllWeek) = Some 0"
    by (simp add: fajrOffAllWeek_def startupState_def initialSkipNext_def)
  have f1: "map_option (\<lambda>x. 1::int) (skip_next fajrOffAllWeek) = Some 1"
    by (simp add: fajrOffAllWeek_def startupState_def)
  have f2: "map_option (\<lambda>x. 1::int) (skip_next fajrOffFriday) = Some 1"
    by (simp add: fajrOffFriday_def startupState_def)
  note n1 = scenario_next_at_six[OF t1] and n2 = scenario_next_at_six[OF t2]
    and e1 = scenario_next_at_eleven[OF t1] and e2 = scenario_next_at_eleven[OF t2]
  from skip_next_rejected_only_when_disabled_all_week[OF clocks(1) m1] scenario_candidates(1)[OF t1]
  obtain r where "nextUpcoming fajrOffAllWeek ?six = Some r"
    and "if \<forall>d<7. prayer_schedule fajrOffAllWeek (prayer_name r, d) = Some 0
         then postSkipNext fajrOffAllWeek ?six =
                (fajrOffAllWeek, Reply 400 False (prayer_name r @ '' is already muted in general settings''))
            \<and> getMuteNextAthan fajrOffAllWeek ?six =
                (fajrOffAllWeek, Reply 200 False (prayer_name r @ '' is already muted in general settings''))
         else postSkipNext fajrOffAllWeek ?six = (setSkip fajrOffAllWeek, Reply 200 True ''Next athan will be skipped'')
            \<and> getMuteNextAthan fajrOffAllWeek ?six =
                (setSkip fajrOffAllWeek, Reply 200 True ''Next athan has been muted successfully'')"
    by blast
  with n1 off have a: "postSkipNext fajrOffAllWeek ?six
       = (fajrOffAllWeek, Reply 400 False ''Fajr is already muted in general settings'')"
    by simp
  from skip_next_rejected_only_when_disabled_all_week[OF clocks(2) m1]
    scenario_candidates(2,3)[OF t1]
  obtain r where "nextUpcoming fajrOffAllWeek ?eleven = Some r"
    and "if \<forall>d<7. prayer_schedule fajrOffAllWeek (prayer_name r, d) = Some 0
         then postSkipNext fajrOffAllWeek ?eleven =
                (fajrOffAllWeek, Reply 400 False (prayer_name r @ '' is already muted in general settings''))
            \<and> getMuteNextAthan fajrOffAllWeek ?eleven =
                (fajrOffAllWeek, Reply 200 False (prayer_name r @ '' is already muted in general settings''))
         else postSkipNext fajrOffAllWeek ?eleven = (setSkip fajrOffAllWeek, Reply 200 True ''Next athan will be skipped'')
            \<and> getMuteNextAthan fajrOffAllWeek ?eleven =
                (setSkip fajrOffAllWeek, Reply 200 True ''Next athan has been muted successfully'')"
    by blast
  with e1 off have b: "postSkipNext fajrOffAllWeek ?eleven
       = (fajrOffAllWeek, Reply 400 False ''Fajr is already muted in general settings'')"
    "getMuteNextAthan fajrOffAllWeek ?eleven
       = (fajrOffAllWeek, Reply 200 False ''Fajr is already muted in general settings'')"
    by simp_all
  from skip_next_rejected_only_when_disabled_all_week[OF clocks(1) m2] scenario_candidates(1)[OF t2]
  obtain r where "nextUpcoming fajrOffFriday ?six = Some r"
    and "if \<forall>d<7. prayer_schedule fajrOffFriday (prayer_name r, d) = Some 0
         then postSkipNext fajrOffFriday ?six =
                (fajrOffFriday, Reply 400 False (prayer_name r @ '' is already muted in general settings''))
            \<and> getMuteNextAthan fajrOffFriday ?six =
                (fajrOffFriday, Reply 200 False (prayer_name r @ '' is already muted in general settings''))
         else postSkipNext fajrOffFriday ?six = (setSkip fajrOffFriday, Reply 200 True ''Next athan will be skipped'')
            \<and> getMuteNextAthan fajrOffFriday ?six =
                (setSkip fajrOffFriday, Reply 200 True ''Next athan has been muted successfully'')"
    by blast
  with n2 part have c: "getMuteNextAthan fajrOffFriday ?six =
                (setSkip fajrOffFriday, Reply 200 True ''Next athan has been muted successfully'')"
    by simp
  from skip_next_rejected_only_when_disabled_all_week[OF clocks(2) m2]
    scenario_candidates(2,3)[OF t2]
  obtain r where "nextUpcoming fajrOffFriday ?eleven = Some r"
    and "if \<forall>d<7. prayer_schedule fajrOffFriday (prayer_name r, d) = Some 0
         then postSkipNext fajrOffFriday ?eleven =
                (fajrOffFriday, Reply 400 False (prayer_name r @ '' is already muted in general settings''))
            \<and> getMuteNextAthan fajrOffFriday ?eleven =
                (fajrOffFriday, Reply 200 False (prayer_name r @ '' is already muted in general settings''))
         else postSkipNext fajrOffFriday ?eleven = (setSkip fajrOffFriday, Reply 200 True ''Next athan will be skipped'')
            \<and> getMuteNextAthan fajrOffFriday ?eleven =
                (setSkip fajrOffFriday, Reply 200 True ''Next athan has been muted successfully'')"
    by blast
  with e2 part have d: "postSkipNext fajrOffFriday ?eleven
       = (setSkip fajrOffFriday, Reply 200 True ''Next athan will be skipped'')"
    by simp
  from skip_next_rejected_only_when_disabled_all_week[OF clocks(3) m1]
    scenario_candidates(4,5)[OF t1]
  have e: "nextUpcoming fajrOffAllWeek ?late = None"
    "postSkipNext fajrOffAllWeek ?late = (setSkip fajrOffAllWeek, Reply 200 True ''Next athan will be skipped'')"
    by blast+
  have flag: "map_option skip (skip_next (setSkip fajrOffFriday)) = Some 1"
    "map_option skip (skip_next (setSkip fajrOffAllWeek)) = Some 1"
    by (simp_all add: setSkip_def option.map_comp comp_def f1 f2)
  show ?thesis
    using clocks m1 m2 cnt count_friday today s0 n1 e1 a b c d e flag
    by (simp add: list_all_iff)
qed

subsection \<open>C3: the trigger window of check-athan-time\<close>

lemma checkLoop_ShouldPlay:
  "checkLoop st now rows = ShouldPlay p a \<Longrightarrow>
   \<exists>r\<in>set rows. prayer_name r = p \<and> inTriggerWindow now r"
  by (induction rows) (auto split: if_splits)

lemma window_in_seconds:
  assumes "inTriggerWindow now r" "date r = local_day now" "clock_s now < 60"
  shows "prayerDateTime r \<le> localSeconds now \<and> localSeconds now < prayerDateTime r + 120"
proof -
  obtain H M where t: "prayer_time r = (H, M)" by (cases "prayer_time r")
  show ?thesis
    using assms unfolding inTriggerWindow_def prayerDateTime_def localSeconds_def
      toTimeHHMM_def minutesOf_def t Let_def
    by simp
qed

lemma check_scenario_63159:
  "checkAthanTime (startupState scenarioCalendar) (clockAt 20000 6 31 59)
     = ShouldPlay ''Fajr'' ''Masjid Al-Haram.mp3''"
  by (simp add: checkAthanTime_def selectMainOn_def scenarioCalendar_def startupState_def settingOr_def
      initialSettings_def clockAt_def formatDateLocal_def inTriggerWindow_def minutesOf_def
      toTimeHHMM_def initialSkipNext_def initialSchedule_def dayIndex_def getDay_def mainPrayers_def)

text \<open>
  C3, as the code has it. The window is tested on clock readings cut to \<^verbatim>\<open>HH:MM\<close>:
  shouldPlay is true for a prayer only when that prayer is a canonical one of today and the
  minute of now is the minute of the prayer or the one after it. In seconds: now is at or
  after the prayer's time and less than two minutes after it.
\<close>

theorem shouldPlay_only_inside_window:
  assumes play: "checkAthanTime st now = ShouldPlay p a"
    and clock: "clock_s now < 60"
  shows "\<exists>r\<in>set (prayers st). date r = local_day now \<and> prayer_name r = p \<and> p \<in> set mainPrayers
           \<and> 0 \<le> minutesOf (toTimeHHMM now) - minutesOf (prayer_time r)
           \<and> minutesOf (toTimeHHMM now) - minutesOf (prayer_time r) \<le> 1
           \<and> prayerDateTime r \<le> localSeconds now
           \<and> localSeconds now < prayerDateTime r + 120"
proof -
  from play have "checkLoop st now (selectMainOn (prayers st) (formatDateLocal now)) = ShouldPlay p a"
    by (simp add: checkAthanTime_def split: if_splits)
  then obtain r where r: "r \<in> set (selectMainOn (prayers st) (formatDateLocal now))"
    and n: "prayer_name r = p" and w: "inTriggerWindow now r"
    using checkLoop_ShouldPlay by blast
  from r have mem: "r \<in> set (prayers st)" and d: "date r = local_day now"
    and m: "prayer_name r \<in> set mainPrayers"
    by (simp_all add: selectMainOn_def formatDateLocal_def)
  from w have "0 \<le> minutesOf (toTimeHHMM now) - minutesOf (prayer_time r)"
    and "minutesOf (toTimeHHMM now) - minutesOf (prayer_time r) \<le> 1"
    by (simp_all add: inTriggerWindow_def Let_def)
  with window_in_seconds[OF w d clock] mem d n m show ?thesis by blast
qed

theorem shouldPlay_only_inside_window_witness:
  "checkAthanTime (startupState scenarioCalendar) (clockAt 20000 6 31 59)
     = ShouldPlay ''Fajr'' ''Masjid Al-Haram.mp3''
   \<and> clock_s (clockAt 20000 6 31 59) < 60
   \<and> minutesOf (toTimeHHMM (clockAt 20000 6 31 59)) - minutesOf (6, 30) = 1
   \<and> localSeconds (clockAt 20000 6 31 59)
       < prayerDateTime \<lparr>date = 20000, prayer_name = ''Fajr'', prayer_time = (6, 30)\<rparr> + 120"
proof -
  let ?now = "clockAt 20000 6 31 59"
  have c: "clock_s ?now < 60" by (simp add: clockAt_def)
  from shouldPlay_only_inside_window[OF check_scenario_63159 c]
  obtain r where r: "r \<in> set (prayers (startupState scenarioCalendar))"
    and d: "date r = local_day ?now" and n: "prayer_name r = ''Fajr''"
    and up: "localSeconds ?now < prayerDateTime r + 120"
    by blast
  from r d n have "r = \<lparr>date = 20000, prayer_name = ''Fajr'', prayer_time = (6, 30)\<rparr>"
    by (auto simp: startupState_def scenarioCalendar_def clockAt_def)
  with up have "localSeconds ?now
       < prayerDateTime \<lparr>date = 20000, prayer_name = ''Fajr'', prayer_time = (6, 30)\<rparr> + 120"
    by simp
  moreover have "minutesOf (toTimeHHMM ?now) - minutesOf (6, 30) = 1"
    by (simp add: minutesOf_def toTimeHHMM_def clockAt_def)
  ultimately show ?thesis using c check_scenario_63159 by simp
qed

text \<open>
  C3 as stated fails: at 06:31:59 the answer for Fajr of 06:30 is still shouldPlay, 119
  seconds after the prayer's time.
\<close>

theorem shouldPlay_two_minutes_counterexample:
  "checkAthanTime (startupState scenarioCalendar) (clockAt 20000 6 31 59)
     = ShouldPlay ''Fajr'' ''Masjid Al-Haram.mp3''
   \<and> localSeconds (clockAt 20000 6 31 59)
     = prayerDateTime \<lparr>date = 20000, prayer_name = ''Fajr'', prayer_time = (6, 30)\<rparr> + 119
   \<and> \<not> localSeconds (clockAt 20000 6 31 59)
       \<le> prayerDateTime \<lparr>date = 20000, prayer_name = ''Fajr'', prayer_time = (6, 30)\<rparr> + 60"
  by (simp add: check_scenario_63159) (simp add: localSeconds_def prayerDateTime_def clockAt_def)

subsection \<open>C4: what scheduleAthanCalls arms\<close>

lemma count_by_key:
  "distinct (map rowKey rows) \<Longrightarrow>
   length (filter (\<lambda>r. rowKey r = k \<and> Q r) rows)
     = (if \<exists>r\<in>set rows. rowKey r = k \<and> Q r then 1 else 0)"
proof (induction rows)
  case Nil
  then show ?case by simp
next
  case (Cons x xs)
  show ?case
  proof (cases "rowKey x = k")
    case True
    with Cons.prems have "k \<notin> rowKey ` set xs" by simp
    then have "\<forall>r\<in>set xs. rowKey r \<noteq> k" by blast
    then have "filter (\<lambda>r. rowKey r = k \<and> Q r) xs = []" by (simp add: filter_empty_conv)
    with True \<open>\<forall>r\<in>set xs. rowKey r \<noteq> k\<close> show ?thesis by auto
  next
    case False
    with Cons show ?thesis by simp
  qed
qed

lemma jobs_of_rearm:
  "scheduledJobs (scheduleAthanCalls st now) =
     map (\<lambda>r. \<lparr>fireAt = prayerDateTime r, job_prayer = r\<rparr>)
       (filter (\<lambda>r. prayerDateTime r > localSeconds now)
          (selectTwoDays (prayers st) (local_day now) (local_day now + 1)))"
  by (simp add: scheduleAthanCalls_def Let_def formatDateLocal_def tomorrowOf_def)

lemma count_jobs:
  "length (filter (\<lambda>j. rowKey (job_prayer j) = k) (scheduledJobs (scheduleAthanCalls st now)))
   = length (filter (\<lambda>r. rowKey r = k \<and>
        ((date r = local_day now \<or> date r = local_day now + 1) \<and> prayer_name r \<in> set mainPrayers
          \<and> prayerDateTime r > localSeconds now)) (prayers st))"
proof -
  have "length (filter (\<lambda>j. rowKey (job_prayer j) = k) (scheduledJobs (scheduleAthanCalls st now)))
      = length (filter (\<lambda>r. rowKey r = k) (filter (\<lambda>r. prayerDateTime r > localSeconds now)
          (selectTwoDays (prayers st) (local_day now) (local_day now + 1))))"
    by (simp add: jobs_of_rearm filter_map comp_def)
  also have "\<dots> = length (sort_key (\<lambda>r. (date r, prayer_time r))
        (filter (\<lambda>r. rowKey r = k \<and> prayerDateTime r > localSeconds now)
          (filter (\<lambda>r. (date r = local_day now \<or> date r = local_day now + 1)
             \<and> prayer_name r \<in> set mainPrayers) (prayers st))))"
    by (simp add: selectTwoDays_def filter_sort conj_commute)
  also have "\<dots> = length (filter (\<lambda>r. rowKey r = k \<and>
        ((date r = local_day now \<or> date r = local_day now + 1) \<and> prayer_name r \<in> set mainPrayers
          \<and> prayerDateTime r > localSeconds now)) (prayers st))"
    by (simp add: conj_ac)
  finally show ?thesis .
qed

lemma insertOrReplace_unique:
  "distinct (map rowKey tbl) \<Longrightarrow> distinct (map rowKey (insertOrReplace tbl r))"
  by (auto simp: insertOrReplace_def rowKey_def distinct_map_filter)

lemma foldl_insertOrReplace_unique:
  "distinct (map rowKey tbl) \<Longrightarrow> distinct (map rowKey (foldl insertOrReplace tbl rs))"
  by (induction rs arbitrary: tbl) (simp_all add: insertOrReplace_unique)

lemma fetchPrayerTimes_keeps_unique:
  "distinct (map rowKey (prayers st)) \<Longrightarrow>
   distinct (map rowKey (prayers (fst (fetchPrayerTimes st now h resp))))"
  by (auto simp: fetchPrayerTimes_def Let_def scheduleAthanCalls_def distinct_map_filter
      intro!: foldl_insertOrReplace_unique split: option.splits sum.splits)

text \<open>
  C4. With the prayers table keyed by (date, prayer_name): after scheduleAthanCalls the
  number of armed jobs for a pair (d, n) is 1 when d is today or tomorrow, n is canonical
  and the table has the pair at an instant strictly after now, and 0 otherwise; every
  armed job fires at its row's date-time, which is after now; no job armed before
  survives; and a second call at the same instant changes nothing.
\<close>

theorem rearm_one_timer_per_future_pair:
  assumes unique: "distinct (map rowKey (prayers st))"
  shows "length (filter (\<lambda>j. rowKey (job_prayer j) = (d, n)) (scheduledJobs (scheduleAthanCalls st now)))
           = (if (d = local_day now \<or> d = local_day now + 1) \<and> n \<in> set mainPrayers
                 \<and> (\<exists>r\<in>set (prayers st). rowKey r = (d, n) \<and> prayerDateTime r > localSeconds now)
              then 1 else 0)
       \<and> (\<forall>j\<in>set (scheduledJobs (scheduleAthanCalls st now)).
             job_prayer j \<in> set (prayers st) \<and> fireAt j = prayerDateTime (job_prayer j)
             \<and> fireAt j > localSeconds now)
       \<and> scheduledJobs (scheduleAthanCalls (st\<lparr>scheduledJobs := old\<rparr>) now)
           = scheduledJobs (scheduleAthanCalls st now)
       \<and> scheduleAthanCalls (scheduleAthanCalls st now) now = scheduleAthanCalls st now"
proof (intro conjI)
  let ?Q = "\<lambda>r. (date r = local_day now \<or> date r = local_day now + 1)
              \<and> prayer_name r \<in> set mainPrayers \<and> prayerDateTime r > localSeconds now"
  have "length (filter (\<lambda>j. rowKey (job_prayer j) = (d, n)) (scheduledJobs (scheduleAthanCalls st now)))
        = (if \<exists>r\<in>set (prayers st). rowKey r = (d, n) \<and> ?Q r then 1 else 0)"
    unfolding count_jobs by (rule count_by_key[OF unique])
  also have "(\<exists>r\<in>set (prayers st). rowKey r = (d, n) \<and> ?Q r) \<longleftrightarrow>
        ((d = local_day now \<or> d = local_day now + 1) \<and> n \<in> set mainPrayers
          \<and> (\<exists>r\<in>set (prayers st). rowKey r = (d, n) \<and> prayerDateTime r > localSeconds now))"
    by (auto simp: rowKey_def)
  finally show "length (filter (\<lambda>j. rowKey (job_prayer j) = (d, n)) (scheduledJobs (scheduleAthanCalls st now)))
           = (if (d = local_day now \<or> d = local_day now + 1) \<and> n \<in> set mainPrayers
                 \<and> (\<exists>r\<in>set (prayers st). rowKey r = (d, n) \<and> prayerDateTime r > localSeconds now)
              then 1 else 0)" .
  show "\<forall>j\<in>set (scheduledJobs (scheduleAthanCalls st now)).
             job_prayer j \<in> set (prayers st) \<and> fireAt j = prayerDateTime (job_prayer j)
             \<and> fireAt j > localSeconds now"
    by (auto simp: jobs_of_rearm selectTwoDays_def)
  show "scheduledJobs (scheduleAthanCalls (st\<lparr>scheduledJobs := old\<rparr>) now)
           = scheduledJobs (scheduleAthanCalls st now)"
    by (simp add: jobs_of_rearm)
  show "scheduleAthanCalls (scheduleAthanCalls st now) now = scheduleAthanCalls st now"
    by (simp add: scheduleAthanCalls_def Let_def)
qed

text \<open>
  At 07:00 of day 20000 the scenario calendar gives one job for today's Dhuhr and one for
  tomorrow's Fajr, none for today's Fajr (passed) and none for the sunrise marker.
\<close>

theorem rearm_one_timer_per_future_pair_witness:
  "distinct (map rowKey (prayers armedState))
   \<and> length (filter (\<lambda>j. rowKey (job_prayer j) = (20000, ''Dhuhr''))
        (scheduledJobs (scheduleAthanCalls armedState (clockAt 20000 7 0 0)))) = 1
   \<and> length (filter (\<lambda>j. rowKey (job_prayer j) = (20000, ''Fajr''))
        (scheduledJobs (scheduleAthanCalls armedState (clockAt 20000 7 0 0)))) = 0
   \<and> length (filter (\<lambda>j. rowKey (job_prayer j) = (20000, ''Sunrise''))
        (scheduledJobs (scheduleAthanCalls armedState (clockAt 20000 7 0 0)))) = 0
   \<and> length (filter (\<lambda>j. rowKey (job_prayer j) = (20001, ''Fajr''))
        (scheduledJobs (scheduleAthanCalls armedState (clockAt 20000 7 0 0)))) = 1
   \<and> scheduleAthanCalls (scheduleAthanCalls armedState (clockAt 20000 7 0 0)) (clockAt 20000 7 0 0)
       = scheduleAthanCalls armedState (clockAt 20000 7 0 0)"
proof -
  let ?now = "clockAt 20000 7 0 0"
  have tbl: "prayers armedState = scenarioCalendar"
    by (simp add: armedState_def scheduleAthanCalls_def startupState_def Let_def)
  have u: "distinct (map rowKey (prayers armedState))"
    unfolding tbl by (simp add: scenarioCalendar_def rowKey_def)
  have now: "local_day ?now = 20000" "localSeconds ?now = 1728025200"
    by (simp_all add: clockAt_def localSeconds_def)
  have dhuhr: "\<exists>r\<in>set (prayers armedState). rowKey r = (20000, ''Dhuhr'')
                 \<and> prayerDateTime r > localSeconds ?now"
    unfolding tbl now by (simp add: scenarioCalendar_def rowKey_def prayerDateTime_def)
  have fajr: "\<not> (\<exists>r\<in>set (prayers armedState). rowKey r = (20000, ''Fajr'')
                 \<and> prayerDateTime r > localSeconds ?now)"
    unfolding tbl now by (simp add: scenarioCalendar_def rowKey_def prayerDateTime_def)
  have fajr': "\<exists>r\<in>set (prayers armedState). rowKey r = (20001, ''Fajr'')
                 \<and> prayerDateTime r > localSeconds ?now"
    unfolding tbl now by (simp add: scenarioCalendar_def rowKey_def prayerDateTime_def)
  have m: "''Dhuhr'' \<in> set mainPrayers" "''Fajr'' \<in> set mainPrayers" "''Sunrise'' \<notin> set mainPrayers"
    by (simp_all add: mainPrayers_def)
  show ?thesis
    using rearm_one_timer_per_future_pair[OF u, of 20000 "''Dhuhr''" ?now]
      rearm_one_timer_per_future_pair[OF u, of 20000 "''Fajr''" ?now]
      rearm_one_timer_per_future_pair[OF u, of 20000 "''Sunrise''" ?now]
      rearm_one_timer_per_future_pair[OF u, of 20001 "''Fajr''" ?now]
      u dhuhr fajr fajr' m now(1)
    by simp
qed

subsection \<open>C1: the firing path and the polling path\<close>

lemma main_not_special:
  "p \<in> set mainPrayers \<Longrightarrow> p \<notin> set [''Startup'', ''PageLoad'', ''Test'']"
  by (auto simp: mainPrayers_def)

lemma checkLoop_find:
  "find (inTriggerWindow now) rows = Some row \<Longrightarrow> checkLoop st now rows = checkLoop st now [row]"
  by (induction rows) (auto split: if_splits)

lemma find_selectMainOn:
  "find P (selectMainOn tbl d) = Some row \<Longrightarrow> prayer_name row \<in> set mainPrayers \<and> P row"
proof -
  assume "find P (selectMainOn tbl d) = Some row"
  then have "row \<in> set (selectMainOn tbl d)" "P row"
    by (auto simp: find_Some_iff)
  then show ?thesis by (simp add: selectMainOn_def)
qed

lemma find_scenario_630:
  "find (inTriggerWindow (clockAt 20000 6 30 10)) (selectMainOn scenarioCalendar 20000)
     = Some \<lparr>date = 20000, prayer_name = ''Fajr'', prayer_time = (6, 30)\<rparr>"
  by (simp add: selectMainOn_def scenarioCalendar_def mainPrayers_def inTriggerWindow_def
      minutesOf_def toTimeHHMM_def clockAt_def)

lemma fire_consumedToday:
  "playAthan (\<lambda>f. True) consumedToday (clockAt 20000 6 30 10) ''Fajr''
     = (consumedToday, ServerPlay ''Masjid Al-Haram.mp3'' ''50'' False)"
  by (simp add: playAthan_def consumedToday_def startupState_def initialSchedule_def
      initialSettings_def settingOr_def mainPrayers_def Let_def)

lemma poll_consumedToday:
  "checkAthanTime consumedToday (clockAt 20000 6 30 10) = NoPlay"
  by (simp add: checkAthanTime_def consumedToday_def startupState_def settingOr_def
      initialSettings_def selectMainOn_def scenarioCalendar_def mainPrayers_def
      inTriggerWindow_def minutesOf_def toTimeHHMM_def clockAt_def formatDateLocal_def)

lemma fire_serverOnly:
  "playAthan (\<lambda>f. True) serverOnlyState (clockAt 20000 6 30 10) ''Fajr''
     = (serverOnlyState, ServerPlay ''Masjid Al-Haram.mp3'' ''50'' False)"
  by (simp add: playAthan_def serverOnlyState_def startupState_def initialSchedule_def
      initialSettings_def initialSkipNext_def settingOr_def mainPrayers_def Let_def)

lemma poll_serverOnly: "checkAthanTime serverOnlyState t = NoPlay"
  by (simp add: checkAthanTime_def serverOnlyState_def settingOr_def)

text \<open>
  C1, as the code has it. Let the browser be an output target and let the poll reach a
  prayer (the first of today's canonical prayers inside the window). Whenever the poll
  says shouldPlay for it, playAthan passes its checks for it too; and unless the
  last-skipped record names this prayer and today's date, the two agree: playAthan
  passes its checks exactly when the poll says shouldPlay.
\<close>

theorem fire_and_poll_agree_outside_consumed_record:
  assumes browser: "settingOr st ''audio_output'' ''both'' \<noteq> ''server''"
    and reached: "find (inTriggerWindow now) (selectMainOn (prayers st) (formatDateLocal now)) = Some row"
  shows "((\<exists>a. checkAthanTime st now = ShouldPlay (prayer_name row) a) \<longrightarrow>
            athanAllowed (snd (playAthan ex st now (prayer_name row))))
       \<and> (\<not> (case skip_next st of
                 Some r \<Rightarrow> last_skipped_prayer r = Some (prayer_name row)
                           \<and> last_skipped_date r = Some (formatDateLocal now)
               | None \<Rightarrow> False) \<longrightarrow>
            (athanAllowed (snd (playAthan ex st now (prayer_name row))) \<longleftrightarrow>
             (\<exists>a. checkAthanTime st now = ShouldPlay (prayer_name row) a)))"
proof -
  from find_selectMainOn[OF reached]
  have canon: "prayer_name row \<in> set mainPrayers" and win: "inTriggerWindow now row" by simp_all
  from main_not_special[OF canon]
  have ns: "prayer_name row \<noteq> ''Startup''" "prayer_name row \<noteq> ''PageLoad''" "prayer_name row \<noteq> ''Test''"
    by simp_all
  have poll: "checkAthanTime st now = checkLoop st now [row]"
    using browser by (simp add: checkAthanTime_def checkLoop_find[OF reached])
  show ?thesis
    unfolding poll using win ns
    by (auto simp: playAthan_def athanAllowed_def Let_def split: option.splits if_splits)
qed

theorem fire_and_poll_agree_outside_consumed_record_witness:
  "settingOr (startupState scenarioCalendar) ''audio_output'' ''both'' \<noteq> ''server''
   \<and> find (inTriggerWindow (clockAt 20000 6 30 10))
        (selectMainOn (prayers (startupState scenarioCalendar)) (formatDateLocal (clockAt 20000 6 30 10)))
       = Some \<lparr>date = 20000, prayer_name = ''Fajr'', prayer_time = (6, 30)\<rparr>
   \<and> checkAthanTime (startupState scenarioCalendar) (clockAt 20000 6 30 10)
       = ShouldPlay ''Fajr'' ''Masjid Al-Haram.mp3''
   \<and> athanAllowed (snd (playAthan (\<lambda>f. True) (startupState scenarioCalendar) (clockAt 20000 6 30 10) ''Fajr''))"
proof -
  let ?st = "startupState scenarioCalendar"
  let ?now = "clockAt 20000 6 30 10"
  let ?fajr = "\<lparr>date = 20000, prayer_name = ''Fajr'', prayer_time = (6, 30)\<rparr>"
  have b: "settingOr ?st ''audio_output'' ''both'' \<noteq> ''server''"
    by (simp add: settingOr_def startupState_def initialSettings_def)
  have f: "find (inTriggerWindow ?now) (selectMainOn (prayers ?st) (formatDateLocal ?now)) = Some ?fajr"
    using find_scenario_630 by (simp add: startupState_def formatDateLocal_def clockAt_def)
  from fire_and_poll_agree_outside_consumed_record[OF b f, of "\<lambda>f. True"] check_scenario_630
  have "athanAllowed (snd (playAthan (\<lambda>f. True) ?st ?now ''Fajr''))" by simp
  with b f check_scenario_630 show ?thesis by simp
qed

text \<open>
  C1 as stated fails: with the flag clear and the record naming Fajr of today, playAthan
  plays Fajr while the poll answers that the browser should not; and with the server as
  the only output target the poll answers no whatever playAthan does.
\<close>

theorem fire_allows_poll_denies_counterexample:
  "athanAllowed (snd (playAthan (\<lambda>f. True) consumedToday (clockAt 20000 6 30 10) ''Fajr''))
   \<and> snd (playAthan (\<lambda>f. True) consumedToday (clockAt 20000 6 30 10) ''Fajr'')
       = ServerPlay ''Masjid Al-Haram.mp3'' ''50'' False
   \<and> checkAthanTime consumedToday (clockAt 20000 6 30 10) = NoPlay
   \<and> find (inTriggerWindow (clockAt 20000 6 30 10))
        (selectMainOn (prayers consumedToday) (formatDateLocal (clockAt 20000 6 30 10)))
       = Some \<lparr>date = 20000, prayer_name = ''Fajr'', prayer_time = (6, 30)\<rparr>
   \<and> athanAllowed (snd (playAthan (\<lambda>f. True) serverOnlyState (clockAt 20000 6 30 10) ''Fajr''))
   \<and> checkAthanTime serverOnlyState (clockAt 20000 6 30 10) = NoPlay"
proof -
  have "find (inTriggerWindow (clockAt 20000 6 30 10))
        (selectMainOn (prayers consumedToday) (formatDateLocal (clockAt 20000 6 30 10)))
       = find (inTriggerWindow (clockAt 20000 6 30 10)) (selectMainOn scenarioCalendar 20000)"
    by (simp add: consumedToday_def startupState_def formatDateLocal_def clockAt_def)
  then show ?thesis
    by (simp add: fire_consumedToday poll_consumedToday athanAllowed_def find_scenario_630
        fire_serverOnly poll_serverOnly)
qed

subsection \<open>C2: the one-shot mute within a firing window\<close>

lemma checkLoop_flag_set:
  "skip_next st = Some r \<Longrightarrow> skip r = 1 \<Longrightarrow> checkLoop st t rows = NoPlay"
  by (induction rows) simp_all

lemma poll_flag_set:
  "skip_next st = Some r \<Longrightarrow> skip r = 1 \<Longrightarrow> checkAthanTime st t = NoPlay"
  by (simp add: checkAthanTime_def checkLoop_flag_set)

lemma checkLoop_recorded:
  assumes "skip_next st = Some r" "last_skipped_prayer r = Some p"
    "last_skipped_date r = Some (formatDateLocal t)"
  shows "checkLoop st t rows \<noteq> ShouldPlay p a"
  using assms by (induction rows) auto

lemma poll_recorded:
  assumes "skip_next st = Some r" "last_skipped_prayer r = Some p"
    "last_skipped_date r = Some (local_day t)"
  shows "pollVerdict p (checkAthanTime st t) = Deny"
proof -
  have "checkAthanTime st t \<noteq> ShouldPlay p a" for a
    using checkLoop_recorded[OF assms(1,2), of t] assms(3)
    by (simp add: checkAthanTime_def formatDateLocal_def)
  then show ?thesis
    by (cases "checkAthanTime st t") (auto simp: pollVerdict_def)
qed

lemma runChecks_polls:
  "\<forall>t\<in>set ts. pollVerdict p (checkAthanTime st t) = Deny \<Longrightarrow>
   runChecks ex p st (map Poll ts) = (st, replicate (length ts) Deny)"
  by (induction ts) (simp_all add: Let_def)

lemma runChecks_append:
  "runChecks ex p st (xs @ ys) =
     (fst (runChecks ex p (fst (runChecks ex p st xs)) ys),
      snd (runChecks ex p st xs) @ snd (runChecks ex p (fst (runChecks ex p st xs)) ys))"
  by (induction xs arbitrary: st) (simp_all add: Let_def)

lemma fire_consumes:
  assumes "skip_next st = Some r" "skip r = 1" "p \<in> set mainPrayers"
    "prayer_schedule st (p, dayIndex now) \<noteq> Some 0"
  shows "playAthan ex st now p =
     (st\<lparr>skip_next := Some (r\<lparr>skip := 0, last_skipped_prayer := Some p,
                                last_skipped_date := Some (utc_day now)\<rparr>)\<rparr>, SkipNextConsumed)"
  using assms main_not_special[OF assms(3)]
  by (simp add: playAthan_def Let_def toISODate_def)

lemma mutedState_skip:
  "skip_next mutedState = Some (initialSkipNext\<lparr>skip := 1\<rparr>)"
  by (simp add: mutedState_def setSkip_def startupState_def)

text \<open>
  C2, as the code has it. Let the flag be set and the canonical prayer not disabled on the
  weekday of the firing, and let the UTC date at the firing be the local date. In a window
  made of polls, then the firing, then polls of the same local date: every poll before the
  firing is denied and consumes nothing; the firing is denied, clears the flag and records
  (date, prayer); every poll after it is denied. One consumption, no Allow.
\<close>

theorem one_shot_mute_consumed_once_by_the_firing:
  assumes flag: "skip_next st = Some r" "skip r = 1"
    and canon: "p \<in> set mainPrayers"
    and enabled: "prayer_schedule st (p, dayIndex fnow) \<noteq> Some 0"
    and utc: "utc_day fnow = local_day fnow"
    and window: "\<forall>t\<in>set later. local_day t = local_day fnow"
  shows "runChecks ex p st (map Poll earlier @ Fire fnow # map Poll later) =
     (st\<lparr>skip_next := Some (r\<lparr>skip := 0, last_skipped_prayer := Some p,
                                last_skipped_date := Some (local_day fnow)\<rparr>)\<rparr>,
      replicate (length earlier) Deny @ DenyAndConsume # replicate (length later) Deny)"
proof -
  let ?st' = "st\<lparr>skip_next := Some (r\<lparr>skip := 0, last_skipped_prayer := Some p,
                                last_skipped_date := Some (local_day fnow)\<rparr>)\<rparr>"
  have before: "runChecks ex p st (map Poll earlier) = (st, replicate (length earlier) Deny)"
    by (rule runChecks_polls) (simp add: poll_flag_set[OF flag] pollVerdict_def)
  have fire: "authStep ex p st (Fire fnow) = (?st', DenyAndConsume)"
    using fire_consumes[OF flag canon enabled, of ex] utc by (simp add: fireVerdict_def)
  have "pollVerdict p (checkAthanTime ?st' t) = Deny" if "t \<in> set later" for t
  proof (rule poll_recorded)
    show "skip_next ?st' = Some (r\<lparr>skip := 0, last_skipped_prayer := Some p,
                                last_skipped_date := Some (local_day fnow)\<rparr>)" by simp
    show "last_skipped_prayer (r\<lparr>skip := 0, last_skipped_prayer := Some p,
                                last_skipped_date := Some (local_day fnow)\<rparr>) = Some p" by simp
    show "last_skipped_date (r\<lparr>skip := 0, last_skipped_prayer := Some p,
                                last_skipped_date := Some (local_day fnow)\<rparr>) = Some (local_day t)"
      using window that by simp
  qed
  then have after: "runChecks ex p ?st' (map Poll later) = (?st', replicate (length later) Deny)"
    by (intro runChecks_polls) blast
  have "runChecks ex p st (Fire fnow # map Poll later)
          = (?st', DenyAndConsume # replicate (length later) Deny)"
    using fire after by (simp add: Let_def)
  then show ?thesis
    by (simp add: runChecks_append before)
qed

theorem one_shot_mute_consumed_once_by_the_firing_witness:
  "map_option skip (skip_next mutedState) = Some 1
   \<and> ''Fajr'' \<in> set mainPrayers
   \<and> prayer_schedule mutedState (''Fajr'', dayIndex (clockAt 20000 6 30 0)) \<noteq> Some 0
   \<and> utc_day (clockAt 20000 6 30 0) = local_day (clockAt 20000 6 30 0)
   \<and> list_all (\<lambda>t. local_day t = local_day (clockAt 20000 6 30 0))
        [clockAt 20000 6 30 10, clockAt 20000 6 31 20]
   \<and> snd (runChecks (\<lambda>f. True) ''Fajr'' mutedState
        [Poll (clockAt 20000 6 30 0), Fire (clockAt 20000 6 30 0),
         Poll (clockAt 20000 6 30 10), Poll (clockAt 20000 6 31 20)])
       = [Deny, DenyAndConsume, Deny, Deny]
   \<and> skip_next (fst (runChecks (\<lambda>f. True) ''Fajr'' mutedState
        [Poll (clockAt 20000 6 30 0), Fire (clockAt 20000 6 30 0),
         Poll (clockAt 20000 6 30 10), Poll (clockAt 20000 6 31 20)]))
       = Some \<lparr>skip = 0, last_skipped_prayer = Some ''Fajr'', last_skipped_date = Some 20000\<rparr>"
proof -
  let ?fire = "clockAt 20000 6 30 0"
  have f2: "skip (initialSkipNext\<lparr>skip := 1\<rparr>) = 1" by simp
  have c: "''Fajr'' \<in> set mainPrayers" by (simp add: mainPrayers_def)
  have e: "prayer_schedule mutedState (''Fajr'', dayIndex ?fire) \<noteq> Some 0"
    by (simp add: mutedState_def setSkip_def startupState_def initialSchedule_def mainPrayers_def
        dayIndex_def getDay_def clockAt_def)
  have u: "utc_day ?fire = local_day ?fire" by (simp add: clockAt_def)
  have w: "\<forall>t\<in>set [clockAt 20000 6 30 10, clockAt 20000 6 31 20]. local_day t = local_day ?fire"
    by (simp add: clockAt_def)
  have l: "local_day ?fire = 20000" by (simp add: clockAt_def)
  have run: "runChecks (\<lambda>f. True) ''Fajr'' mutedState
        [Poll ?fire, Fire ?fire, Poll (clockAt 20000 6 30 10), Poll (clockAt 20000 6 31 20)]
      = (mutedState\<lparr>skip_next := Some (initialSkipNext\<lparr>skip := 0,
            last_skipped_prayer := Some ''Fajr'', last_skipped_date := Some (local_day ?fire)\<rparr>)\<rparr>,
         [Deny, DenyAndConsume, Deny, Deny])"
    using one_shot_mute_consumed_once_by_the_firing[OF mutedState_skip f2 c e u w,
        of "\<lambda>f. True" "[?fire]"]
    by (simp del: runChecks.simps)
  show ?thesis
    unfolding run using c e u w
    by (simp add: mutedState_skip initialSkipNext_def l)
qed

text \<open>
  C2 as stated fails: a poll that comes first is denied but leaves the flag set and records
  nothing, and a window of polls only has no consumption at all.
\<close>

theorem poll_denies_without_consuming_counterexample:
  "map_option skip (skip_next mutedState) = Some 1
   \<and> prayer_schedule mutedState (''Fajr'', dayIndex (clockAt 20000 6 30 10)) = Some 1
   \<and> authStep (\<lambda>f. True) ''Fajr'' mutedState (Poll (clockAt 20000 6 30 10)) = (mutedState, Deny)
   \<and> runChecks (\<lambda>f. True) ''Fajr'' mutedState
        [Poll (clockAt 20000 6 30 10), Poll (clockAt 20000 6 30 20), Poll (clockAt 20000 6 31 0)]
       = (mutedState, [Deny, Deny, Deny])
   \<and> map_option last_skipped_prayer (skip_next mutedState) = Some None"
proof -
  have p: "checkAthanTime mutedState t = NoPlay" for t
    by (rule poll_flag_set[OF mutedState_skip]) simp
  have s: "prayer_schedule mutedState (''Fajr'', dayIndex (clockAt 20000 6 30 10)) = Some 1"
    by (simp add: mutedState_def setSkip_def startupState_def initialSchedule_def mainPrayers_def
        dayIndex_def getDay_def clockAt_def)
  show ?thesis
    by (simp add: p s pollVerdict_def mutedState_skip initialSkipNext_def Let_def)
qed

text \<open>
  The record is written with the UTC date and read against the local date. On a clock four
  hours behind UTC, Isha of 20:30 is recorded under the next day, and the poll ten seconds
  after the muted firing answers shouldPlay.
\<close>

lemma utc_date_record_misses_local_poll:
  "runChecks (\<lambda>f. True) ''Isha'' (setSkip (startupState eveningCalendar))
     [Fire (clockWestAt 20000 20 30 0), Poll (clockWestAt 20000 20 30 10)]
   = ((startupState eveningCalendar)
        \<lparr>skip_next := Some \<lparr>skip = 0, last_skipped_prayer = Some ''Isha'',
                             last_skipped_date = Some 20001\<rparr>\<rparr>,
      [DenyAndConsume, Allow])"
proof -
  let ?st = "setSkip (startupState eveningCalendar)"
  let ?st' = "(startupState eveningCalendar)
        \<lparr>skip_next := Some \<lparr>skip = 0, last_skipped_prayer = Some ''Isha'',
                             last_skipped_date = Some 20001\<rparr>\<rparr>"
  have fire: "playAthan (\<lambda>f. True) ?st (clockWestAt 20000 20 30 0) ''Isha'' = (?st', SkipNextConsumed)"
    by (simp add: playAthan_def setSkip_def startupState_def initialSchedule_def initialSkipNext_def
        mainPrayers_def dayIndex_def getDay_def clockWestAt_def toISODate_def Let_def)
  have poll: "checkAthanTime ?st' (clockWestAt 20000 20 30 10) = ShouldPlay ''Isha'' ''Masjid Al-Haram.mp3''"
    by (simp add: checkAthanTime_def selectMainOn_def eveningCalendar_def startupState_def settingOr_def
        initialSettings_def clockWestAt_def formatDateLocal_def inTriggerWindow_def minutesOf_def
        toTimeHHMM_def initialSchedule_def dayIndex_def getDay_def mainPrayers_def)
  show ?thesis
    by (simp add: fire poll fireVerdict_def pollVerdict_def Let_def)
qed

end
